theory Spec2Isabelle
  imports Main "HOL-Library.Word" "HOL-Library.List_Lexorder"
begin

section \<open>The table of db/table.go\<close>

text \<open>
  A shallow embedding of \<^verbatim>\<open>db/table.go\<close>: the expiration sweeper
  (\<^verbatim>\<open>SweepNextBatch\<close>), the transaction wrapper (\<^verbatim>\<open>Update\<close>,
  \<^verbatim>\<open>ddEmitStats\<close>), the meta document (\<^verbatim>\<open>marshal\<close>,
  \<^verbatim>\<open>unmarshal\<close>), \<^verbatim>\<open>shardIndex\<close>, \<^verbatim>\<open>open\<close>
  and the event codec (\<^verbatim>\<open>rawEvent.marshal\<close>,
  \<^verbatim>\<open>rawEvent.unmarshal\<close>, \<^verbatim>\<open>rawEvent.normalize\<close>).

  Go's \<^verbatim>\<open>int\<close> is modelled as \<open>int\<close>: the counters of a sweep stay below
  the batch size plus the size of one object, and a shard index stays below the shard count,
  so no 64-bit overflow is in reach. A byte slice is a list of 8-bit words, ordered as
  \<^verbatim>\<open>bytes.Compare\<close> orders it (lexicographically, bytes unsigned). A run-time
  panic of Go is the left summand of a result.
\<close>

subsection \<open>Constants and errors\<close>

type_synonym bytes = "8 word list"

definition SweepBatchSize :: int where
  "SweepBatchSize = 1000"

text \<open>
  \<open>AssertFailed\<close> is the panic of a failed \<^verbatim>\<open>assert\<close>. \<open>Errorf\<close>
  is an error made by \<^verbatim>\<open>fmt.Errorf\<close>, with its message. \<open>TableBusy\<close> is
  the error kind that the specification names for a table held by another process;
  \<^verbatim>\<open>table.go\<close> declares no such value and no function below returns it.
\<close>

datatype panic = NilPointer | DivideByZero | AssertFailed

datatype error =
  ErrObjectIDRequired | NoDeletes | ErrDatabaseNotOpen | JsonError | TxError string
| Errorf string | TableBusy

subsection \<open>The key-value store (github.com/boltdb/bolt), as the table uses it\<close>

text \<open>
  A shard bucket holds one sub-bucket per object, keyed by the object id and kept in key
  order; an object's sub-bucket holds its events, keyed by the 8-byte timestamp key and kept
  in key order. The sweeper reads only keys, so an event is its key here. The top-level
  buckets of a database are found by name.
\<close>

type_synonym object_bucket = "bytes list"
type_synonym shard_bucket = "(bytes \<times> object_bucket) list"
type_synonym tx_buckets = "string \<rightharpoonup> shard_bucket"

record bolt_TxStats =
  PageCount :: int
  PageAlloc :: int
  CursorCount :: int
  NodeCount :: int
  NodeDeref :: int
  Rebalance :: int
  RebalanceTime :: int
  Split :: int
  Spill :: int
  SpillTime :: int
  Write :: int
  WriteTime :: int

record bolt_Stats =
  FreePageN :: int
  PendingPageN :: int
  FreeAlloc :: int
  FreelistInuse :: int
  TxN :: int
  OpenTxN :: int
  TxStats :: bolt_TxStats

datatype tx_outcome = Committed | RolledBack

text \<open>
  The database handle: whether it is open (\<^verbatim>\<open>Close\<close> leaves the handle in the
  table and closes it), its committed buckets, its statistics, and the outcomes of its write
  transactions in order (a history, kept so that a rollback can be told from a commit that
  changed nothing).
\<close>

record bolt_DB =
  dbOpened :: bool
  buckets :: tx_buckets
  stats :: bolt_Stats
  txlog :: "tx_outcome list"

text \<open>
  What the store does to its statistics is its own business: \<open>statsSub\<close> is
  \<^verbatim>\<open>Stats.Sub\<close> and \<open>statsAfterTx\<close> gives the statistics after a write
  transaction with the given outcome.
\<close>

record bolt =
  statsSub :: "bolt_Stats \<Rightarrow> bolt_Stats option \<Rightarrow> bolt_Stats"
  statsAfterTx :: "tx_outcome \<Rightarrow> bolt_Stats \<Rightarrow> bolt_Stats"

text \<open>Cursors: \<^verbatim>\<open>First\<close>, and \<^verbatim>\<open>Seek\<close> (to the first key not
  below the sought one) followed by \<^verbatim>\<open>Next\<close>. \<open>None\<close> is the nil key.\<close>

definition cursorFirst :: "bytes list \<Rightarrow> bytes option" where
  "cursorFirst ks = (case ks of [] \<Rightarrow> None | k # _ \<Rightarrow> Some k)"

definition cursorSeekNext :: "bytes \<Rightarrow> bytes list \<Rightarrow> bytes option" where
  "cursorSeekNext k ks =
     (case dropWhile (\<lambda>x. x < k) ks of [] \<Rightarrow> None | _ # rest \<Rightarrow> cursorFirst rest)"

definition bucketGet :: "bytes \<Rightarrow> shard_bucket \<Rightarrow> object_bucket option" where
  "bucketGet k sh = map_of sh k"

definition bucketPut :: "bytes \<Rightarrow> object_bucket \<Rightarrow> shard_bucket \<Rightarrow> shard_bucket" where
  "bucketPut k ob sh = map (\<lambda>(k', ob'). if k' = k then (k', ob) else (k', ob')) sh"

definition DeleteBucket :: "bytes \<Rightarrow> shard_bucket \<Rightarrow> shard_bucket" where
  "DeleteBucket k sh = filter (\<lambda>(k', _). k' \<noteq> k) sh"

subsection \<open>Telemetry (github.com/skydb/sky/statsd)\<close>

text \<open>
  A metric as it is handed to the sink. A gauge carries the integer that the code converts
  to \<^verbatim>\<open>float64\<close>; a histogram carries the two integers whose
  \<^verbatim>\<open>float64\<close> quotient the code sends.
\<close>

datatype metric =
  Count string int "string list"
| Gauge string int "string list"
| Histogram string int int "string list"

fun metricName :: "metric \<Rightarrow> string" where
  "metricName (Count n _ _) = n"
| "metricName (Gauge n _ _) = n"
| "metricName (Histogram n _ _ _) = n"

subsection \<open>The schema\<close>

text \<open>
  Modelled from the spec: the \<^verbatim>\<open>Property\<close> type is declared outside
  \<^verbatim>\<open>table.go\<close>; the spec gives its fields as
  \<open>{id, name, dataType, transient}\<close>. Its back-reference to the table is a handle,
  not data, and is left out.
\<close>

record property =
  pID :: int
  pName :: string
  pDataType :: string
  pTransient :: bool

record tableRawMessage =
  msgName :: string
  msgShardCount :: int
  msgMaxPermanentID :: int
  msgMaxTransientID :: int
  msgProperties :: "property list"

subsection \<open>The table\<close>

text \<open>
  The fields of \<^verbatim>\<open>Table\<close> that the functions below read or write. \<open>db\<close> is
  \<open>None\<close> for the nil handle. \<open>statsd\<close> is the sink of the statsd package, in the
  order of emission; it is kept with the table because the table is its only writer here.
\<close>

record table =
  db :: "bolt_DB option"
  name :: string
  path :: string
  properties :: "string \<rightharpoonup> property"
  propertiesByID :: "int \<rightharpoonup> property"
  shardCount :: int
  maxPermanentID :: int
  maxTransientID :: int
  currentShard :: int
  currentObject :: "bytes option"
  ddTagsCache :: "string list option"
  boltStats :: "bolt_Stats option"
  statsd :: "metric list"

definition opened :: "table \<Rightarrow> bool" where
  "opened t = (db t \<noteq> None)"

definition ShardCount :: "table \<Rightarrow> int" where
  "ShardCount t = shardCount t"

definition ddTags :: "table \<Rightarrow> string list \<times> table" where
  "ddTags t =
     (case ddTagsCache t of
        Some c \<Rightarrow> (c, t)
      | None \<Rightarrow> ([''table:'' @ name t], t\<lparr>ddTagsCache := Some [''table:'' @ name t]\<rparr>))"

text \<open>\<^verbatim>\<open>statsd.Count(n, v, t.ddTags())\<close>\<close>

definition statsdCount :: "string \<Rightarrow> int \<Rightarrow> table \<Rightarrow> table" where
  "statsdCount n v t = (case ddTags t of (tags, t') \<Rightarrow> t'\<lparr>statsd := statsd t' @ [Count n v tags]\<rparr>)"

subsection \<open>Formatting\<close>

text \<open>Go's remainder truncates towards zero; the caller checks the divisor.\<close>

definition goRem :: "int \<Rightarrow> int \<Rightarrow> int" where
  "goRem a b = sgn a * (\<bar>a\<bar> mod \<bar>b\<bar>)"

definition digitChar :: "nat \<Rightarrow> char" where
  "digitChar d = ''0123456789'' ! d"

fun showNat :: "nat \<Rightarrow> string" where
  "showNat n = (if n < 10 then [digitChar n] else showNat (n div 10) @ [digitChar (n mod 10)])"

declare showNat.simps [simp del]

text \<open>The verb \<^verbatim>\<open>%d\<close> of \<^verbatim>\<open>fmt.Sprintf\<close>.\<close>

definition showInt :: "int \<Rightarrow> string" where
  "showInt i = (if i < 0 then CHR ''-'' # showNat (nat (- i)) else showNat (nat i))"

definition shardDBName :: "int \<Rightarrow> string" where
  "shardDBName index = ''shards/'' @ showInt index"

subsection \<open>The expiration sweeper\<close>

text \<open>
  The variables of the closure of \<^verbatim>\<open>SweepNextBatch\<close>: the table, the buckets as
  the write transaction sees them, the shard bucket held by \<^verbatim>\<open>sb\<close> (by name; its
  cursor \<^verbatim>\<open>sc\<close> reads it), and the counters \<^verbatim>\<open>events\<close> and
  \<^verbatim>\<open>objects\<close>. The counter \<^verbatim>\<open>swept\<close> is the loop's own.
\<close>

record sweep =
  tab :: table
  txn :: tx_buckets
  sb :: string
  events :: int
  objects :: int

text \<open>
  The inner loop: from the first event on, delete while the key is below the bound. The
  result is the events left, the count, and whether the cursor ran off the end
  (\<^verbatim>\<open>eventKey == nil\<close>).
\<close>

fun deleteExpired :: "bytes \<Rightarrow> object_bucket \<Rightarrow> int \<Rightarrow> object_bucket \<times> int \<times> bool" where
  "deleteExpired bound [] n = ([], n, True)"
| "deleteExpired bound (k # ks) n =
     (if k < bound then deleteExpired bound ks (n + 1) else (k # ks, n, False))"

text \<open>\<^verbatim>\<open>tx.Bucket(name)\<close> followed by \<^verbatim>\<open>Cursor()\<close>: a bucket that does
  not exist is nil, and a cursor on nil panics.\<close>

definition openCursor :: "tx_buckets \<Rightarrow> string \<Rightarrow> panic + string" where
  "openCursor tx nm = (case tx nm of None \<Rightarrow> Inl NilPointer | Some _ \<Rightarrow> Inr nm)"

text \<open>The position of the shard cursor at the start of an iteration.\<close>

definition nextObject :: "table \<Rightarrow> shard_bucket \<Rightarrow> bytes option" where
  "nextObject t sh =
     (case currentObject t of
        None \<Rightarrow> cursorFirst (map fst sh)
      | Some k \<Rightarrow> cursorSeekNext k (map fst sh))"

text \<open>One pass through the body of the outer loop.\<close>

definition sweepStep :: "bytes \<Rightarrow> sweep \<Rightarrow> panic + sweep" where
  "sweepStep bound s =
     (case txn s (sb s) of
        None \<Rightarrow> Inl NilPointer
      | Some sh \<Rightarrow>
          (case nextObject (tab s) sh of
             None \<Rightarrow>
               if ShardCount (tab s) = 0 then Inl DivideByZero
               else
                 let t1 = (tab s)\<lparr>currentShard := goRem (currentShard (tab s) + 1) (ShardCount (tab s)),
                                  currentObject := None\<rparr>
                 in (case openCursor (txn s) (shardDBName (currentShard t1)) of
                       Inl p \<Rightarrow> Inl p
                     | Inr nm \<Rightarrow>
                         Inr (s\<lparr>tab := statsdCount ''expiration.rollover'' 1 t1, sb := nm\<rparr>))
           | Some objectKey \<Rightarrow>
               let t1 = (tab s)\<lparr>currentObject := Some objectKey\<rparr>
               in (case bucketGet objectKey sh of
                     None \<Rightarrow> Inl NilPointer
                   | Some ob \<Rightarrow>
                       (case deleteExpired bound ob (events s) of
                          (ob', n, exhausted) \<Rightarrow>
                            if exhausted
                            then Inr (s\<lparr>tab := t1,
                                        txn := (txn s)(sb s \<mapsto> DeleteBucket objectKey (bucketPut objectKey ob' sh)),
                                        events := n, objects := objects s + 1\<rparr>)
                            else Inr (s\<lparr>tab := t1,
                                        txn := (txn s)(sb s \<mapsto> bucketPut objectKey ob' sh),
                                        events := n\<rparr>)))))"

text \<open>The outer loop; \<^verbatim>\<open>continue\<close> runs the post statement too.\<close>

function sweepLoop :: "bytes \<Rightarrow> int \<Rightarrow> sweep \<Rightarrow> panic + (int \<times> sweep)" where
  "sweepLoop bound swept s =
     (if swept < SweepBatchSize \<and> events s < SweepBatchSize
      then (case sweepStep bound s of
              Inl p \<Rightarrow> Inl p
            | Inr s' \<Rightarrow> sweepLoop bound (swept + 1) s')
      else Inr (swept, s))"
  by pat_completeness auto
termination
  by (relation "measure (\<lambda>(bound, swept, s). nat (SweepBatchSize - swept))") auto

declare sweepLoop.simps [simp del]

text \<open>
  The closure handed to \<^verbatim>\<open>Update\<close>. It gets the transaction's buckets, the
  table and the captured results \<^verbatim>\<open>(swept, events, objects)\<close>, and returns its
  error with all three. \<open>bound\<close> is
  \<^verbatim>\<open>ShiftTimeBytes(time.Now().Add(-expiration))\<close>, computed outside this file.
\<close>

definition sweepFn ::
  "bytes \<Rightarrow> tx_buckets \<Rightarrow> table \<Rightarrow> int \<times> int \<times> int
     \<Rightarrow> panic + (error option \<times> tx_buckets \<times> table \<times> (int \<times> int \<times> int))" where
  "sweepFn bound tx t r =
     (case r of (swept, ev, ob) \<Rightarrow>
        (case openCursor tx (shardDBName (currentShard t)) of
           Inl p \<Rightarrow> Inl p
         | Inr nm \<Rightarrow>
             (case sweepLoop bound swept \<lparr>tab = t, txn = tx, sb = nm, events = ev, objects = ob\<rparr> of
                Inl p \<Rightarrow> Inl p
              | Inr (swept', s) \<Rightarrow>
                  let t1 = statsdCount ''expiration.sweep'' 1 (tab s) in
                  if events s = 0 \<and> objects s = 0
                  then Inr (Some NoDeletes, txn s, t1, (swept', events s, objects s))
                  else
                    let t2 = (if events s > 0 then statsdCount ''expiration.events'' (events s) t1 else t1);
                        t3 = (if objects s > 0 then statsdCount ''expiration.objects'' (objects s) t2 else t2)
                    in Inr (None, txn s, t3, (swept', events s, objects s)))))"

subsection \<open>The transaction wrapper\<close>

text \<open>The metrics of \<^verbatim>\<open>ddEmitStats\<close>, in the order of the source.\<close>

definition ddStatsMetrics :: "bolt_Stats \<Rightarrow> string list \<Rightarrow> metric list" where
  "ddStatsMetrics st tags =
     [Gauge ''bolt.pages.free'' (FreePageN st) tags,
      Gauge ''bolt.pages.pending'' (PendingPageN st) tags,
      Gauge ''bolt.pages.free.alloc'' (FreeAlloc st) tags,
      Gauge ''bolt.pages.freelist.inuse'' (FreeAlloc st) tags,
      Count ''bolt.txn.total'' (TxN st) tags,
      Gauge ''bolt.txn.open'' (OpenTxN st) tags,
      Count ''bolt.txn.page.count'' (PageCount (TxStats st)) tags,
      Count ''bolt.txn.page.alloc'' (PageAlloc (TxStats st)) tags,
      Count ''bolt.txn.cursor.count'' (CursorCount (TxStats st)) tags,
      Count ''bolt.txn.node.count'' (NodeCount (TxStats st)) tags,
      Count ''bolt.txn.node.deref'' (NodeDeref (TxStats st)) tags,
      Count ''bolt.txn.node.rebalance.count'' (Rebalance (TxStats st)) tags,
      Count ''bolt.txn.node.rebalance.time'' (RebalanceTime (TxStats st)) tags,
      Histogram ''bolt.txn.node.rebalance.period'' (RebalanceTime (TxStats st)) (Rebalance (TxStats st)) tags,
      Count ''bolt.txn.node.split'' (Split (TxStats st)) tags,
      Count ''bolt.txn.node.spill.count'' (Spill (TxStats st)) tags,
      Count ''bolt.txn.node.spill.time'' (SpillTime (TxStats st)) tags,
      Histogram ''bolt.txn.node.spill.period'' (SpillTime (TxStats st)) (Spill (TxStats st)) tags,
      Count ''bolt.txn.write.count'' (Write (TxStats st)) tags,
      Count ''bolt.txn.write.time'' (WriteTime (TxStats st)) tags,
      Histogram ''bolt.txn.write.period'' (WriteTime (TxStats st)) (Write (TxStats st)) tags]"

definition ddEmitStats :: "bolt \<Rightarrow> table \<Rightarrow> panic + table" where
  "ddEmitStats B t =
     (case db t of
        None \<Rightarrow> Inl NilPointer
      | Some d \<Rightarrow>
          let fresh = stats d;
              st = statsSub B fresh (boltStats t);
              t1 = t\<lparr>boltStats := Some fresh\<rparr>
          in (case ddTags t1 of
                (tags, t2) \<Rightarrow> Inr (t2\<lparr>statsd := statsd t2 @ ddStatsMetrics st tags\<rparr>)))"

text \<open>
  \<^verbatim>\<open>db.Update(fn)\<close> of the store: a closed database refuses the transaction
  without running \<open>fn\<close>; otherwise \<open>fn\<close> runs on the buckets, and the transaction
  commits when it returns no error and rolls back when it returns one. The closures of this
  file never assign the table's handle, so the handle after the call is the store's.
\<close>

definition dbUpdate ::
  "bolt \<Rightarrow> (tx_buckets \<Rightarrow> table \<Rightarrow> 'r \<Rightarrow> panic + (error option \<times> tx_buckets \<times> table \<times> 'r))
     \<Rightarrow> bolt_DB \<Rightarrow> table \<Rightarrow> 'r \<Rightarrow> panic + (error option \<times> table \<times> 'r)" where
  "dbUpdate B fn d t r =
     (if \<not> dbOpened d then Inr (Some ErrDatabaseNotOpen, t, r)
      else
        (case fn (buckets d) t r of
           Inl p \<Rightarrow> Inl p
         | Inr (None, tx', t', r') \<Rightarrow>
             Inr (None,
                  t'\<lparr>db := Some (d\<lparr>buckets := tx', stats := statsAfterTx B Committed (stats d),
                                    txlog := txlog d @ [Committed]\<rparr>)\<rparr>, r')
         | Inr (Some e, tx', t', r') \<Rightarrow>
             Inr (Some e,
                  t'\<lparr>db := Some (d\<lparr>stats := statsAfterTx B RolledBack (stats d),
                                    txlog := txlog d @ [RolledBack]\<rparr>)\<rparr>, r')))"

definition Update ::
  "bolt \<Rightarrow> (tx_buckets \<Rightarrow> table \<Rightarrow> 'r \<Rightarrow> panic + (error option \<times> tx_buckets \<times> table \<times> 'r))
     \<Rightarrow> table \<Rightarrow> 'r \<Rightarrow> panic + (error option \<times> table \<times> 'r)" where
  "Update B fn t r =
     (case db t of
        None \<Rightarrow> Inl NilPointer
      | Some d \<Rightarrow>
          (case dbUpdate B fn d t r of
             Inl p \<Rightarrow> Inl p
           | Inr (err, t1, r') \<Rightarrow>
               (case ddEmitStats B t1 of
                  Inl p \<Rightarrow> Inl p
                | Inr t2 \<Rightarrow> Inr (err, t2, r'))))"

text \<open>\<^verbatim>\<open>SweepNextBatch\<close>: the result of \<^verbatim>\<open>Update\<close> is dropped.\<close>

definition SweepNextBatch :: "bolt \<Rightarrow> bytes \<Rightarrow> table \<Rightarrow> panic + ((int \<times> int \<times> int) \<times> table)" where
  "SweepNextBatch B bound t =
     (if \<not> opened t then Inr ((0, 0, 0), t)
      else
        (case Update B (sweepFn bound) t (0, 0, 0) of
           Inl p \<Rightarrow> Inl p
         | Inr (err, t', r) \<Rightarrow> Inr (r, t')))"

subsection \<open>The meta document\<close>

text \<open>
  \<^verbatim>\<open>marshal\<close> and \<^verbatim>\<open>unmarshal\<close> hand the message to
  \<^verbatim>\<open>encoding/json\<close>, which is not part of this file: the encoder and the decoder
  are parameters, over any type of documents. Go ranges over a map in no fixed order;
  \<open>order\<close> is the order in which \<^verbatim>\<open>marshal\<close> meets the keys of
  \<^verbatim>\<open>t.properties\<close>.
\<close>

definition marshal :: "(tableRawMessage \<Rightarrow> error + 'b) \<Rightarrow> string list \<Rightarrow> table \<Rightarrow> error + 'b" where
  "marshal jsonMarshal order t =
     jsonMarshal \<lparr>msgName = name t, msgShardCount = shardCount t,
                 msgMaxPermanentID = maxPermanentID t, msgMaxTransientID = maxTransientID t,
                 msgProperties = List.map_filter (properties t) order\<rparr>"

text \<open>The body of the loop of \<^verbatim>\<open>unmarshal\<close>: both indexes get the property.\<close>

definition indexProperty :: "property \<Rightarrow> table \<Rightarrow> table" where
  "indexProperty p t =
     t\<lparr>properties := (properties t)(pName p \<mapsto> p),
       propertiesByID := (propertiesByID t)(pID p \<mapsto> p)\<rparr>"

text \<open>A document that does not decode leaves the table as it was.\<close>

definition unmarshal :: "('b \<Rightarrow> error + tableRawMessage) \<Rightarrow> 'b \<Rightarrow> table \<Rightarrow> error + table" where
  "unmarshal jsonUnmarshal data t =
     (case jsonUnmarshal data of
        Inl e \<Rightarrow> Inl e
      | Inr msg \<Rightarrow>
          Inr (fold indexProperty (msgProperties msg)
                 (t\<lparr>name := msgName msg, maxPermanentID := msgMaxPermanentID msg,
                    maxTransientID := msgMaxTransientID msg, shardCount := msgShardCount msg,
                    properties := Map.empty, propertiesByID := Map.empty\<rparr>)))"

subsection \<open>Sharding\<close>

text \<open>
  \<^verbatim>\<open>int(hash.Local(id)) % t.shardCount\<close>. The hash package is outside this
  file; \<open>hashLocal\<close> is the hash of an object id after its conversion to
  \<^verbatim>\<open>int\<close>. A remainder by zero panics.
\<close>

definition shardIndex :: "(string \<Rightarrow> int) \<Rightarrow> table \<Rightarrow> string \<Rightarrow> panic + int" where
  "shardIndex hashLocal t oid =
     (if shardCount t = 0 then Inl DivideByZero else Inr (goRem (hashLocal oid) (shardCount t)))"

subsection \<open>Opening the table\<close>

text \<open>
  \<^verbatim>\<open>bolt.Open(path, mode, options)\<close> belongs to the store: it is the parameter
  \<open>boltOpen\<close>, which gives the handle or the message of the store's error (the verb
  \<^verbatim>\<open>%s\<close> prints an error by its message). A duration is a number of nanoseconds.
\<close>

record bolt_Options =
  Timeout :: int

definition Second :: int where
  "Second = 1000000000"

text \<open>
  \<^verbatim>\<open>open\<close> (the name is a keyword here, hence \<open>openTable\<close>). \<open>384\<close> is
  the mode \<^verbatim>\<open>0600\<close>. The closure that reads the meta document and creates the
  buckets is the parameter \<open>initSchema\<close>; the two settings of the handle
  (\<^verbatim>\<open>FillPercent\<close>, \<^verbatim>\<open>StrictMode\<close>) and the factor caches have no
  counterpart in the fields modelled.
\<close>

definition openTable ::
  "bolt \<Rightarrow> (string \<Rightarrow> int \<Rightarrow> bolt_Options \<Rightarrow> string + bolt_DB)
     \<Rightarrow> (tx_buckets \<Rightarrow> table \<Rightarrow> unit \<Rightarrow> panic + (error option \<times> tx_buckets \<times> table \<times> unit))
     \<Rightarrow> table \<Rightarrow> panic + (error option \<times> table)" where
  "openTable B boltOpen initSchema t =
     (if db t \<noteq> None then Inr (None, t)
      else
        (case boltOpen (path t) 384 \<lparr>Timeout = 1 * Second\<rparr> of
           Inl e \<Rightarrow> Inr (Some (Errorf (''table open: '' @ e)), t)
         | Inr d \<Rightarrow>
             (case Update B initSchema (t\<lparr>db := Some d, boltStats := Some (stats d)\<rparr>) () of
                Inl p \<Rightarrow> Inl p
              | Inr (err, t', _) \<Rightarrow> Inr (err, t'))))"

subsection \<open>The event codec\<close>

text \<open>
  Modelled from the spec: the values of an event's data are of the kinds signed integer,
  floating-point, boolean, string and null (4.1); a Go interface value carries its dynamic
  type, so an integer and a floating-point number come with their width in bits. What a
  floating-point number holds is left abstract (the type \<open>'f\<close>); widening keeps it.
\<close>

datatype 'f "value" = VNull | VBool bool | VString string | VInt nat int | VFloat nat 'f

text \<open>
  Modelled from the spec: \<^verbatim>\<open>promote\<close> is declared outside
  \<^verbatim>\<open>table.go\<close>; by the spec (4.1) it takes any integer width to 64-bit signed and
  any floating width to 64-bit, and leaves the other kinds.
\<close>

fun promote :: "'f value \<Rightarrow> 'f value" where
  "promote (VInt w i) = VInt 64 i"
| "promote (VFloat w x) = VFloat 64 x"
| "promote v = v"

record 'f rawEvent =
  timestamp :: "64 word"
  dataMap :: "int \<rightharpoonup> 'f value"

text \<open>\<^verbatim>\<open>binary.Write\<close> and \<^verbatim>\<open>binary.Read\<close> of an
  \<^verbatim>\<open>int64\<close> in big-endian order: eight bytes, the most significant first.\<close>

definition putInt64 :: "64 word \<Rightarrow> bytes" where
  "putInt64 w = map (\<lambda>i. ucast (drop_bit (8 * i) w)) [7, 6, 5, 4, 3, 2, 1, 0]"

definition getInt64 :: "bytes \<Rightarrow> 64 word" where
  "getInt64 bs = foldl (\<lambda>acc b. or (push_bit 8 acc) (ucast b)) 0 bs"

text \<open>
  \<^verbatim>\<open>rawEvent.marshal\<close>, \<^verbatim>\<open>rawEvent.normalize\<close> and
  \<^verbatim>\<open>rawEvent.unmarshal\<close>. The msgpack codec is outside the repository: its
  encoder and decoder of a data map are the parameters \<open>encode\<close> and \<open>decode\<close>.
  The encoder appends to the buffer that holds the timestamp; the decoder gets what is left
  of the buffer after the timestamp. Fewer than eight bytes make \<^verbatim>\<open>binary.Read\<close>
  fail, and the \<^verbatim>\<open>assert\<close> panic.
\<close>

definition rawEvent_marshal ::
  "((int \<rightharpoonup> 'f value) \<Rightarrow> error + bytes) \<Rightarrow> 'f rawEvent \<Rightarrow> error + bytes" where
  "rawEvent_marshal encode e =
     (case encode (dataMap e) of
        Inl err \<Rightarrow> Inl err
      | Inr bs \<Rightarrow> Inr (putInt64 (timestamp e) @ bs))"

definition normalize :: "'f rawEvent \<Rightarrow> 'f rawEvent" where
  "normalize e = e\<lparr>dataMap := map_option promote \<circ> dataMap e\<rparr>"

definition rawEvent_unmarshal ::
  "(bytes \<Rightarrow> error + (int \<rightharpoonup> 'f value)) \<Rightarrow> bytes \<Rightarrow> 'f rawEvent
     \<Rightarrow> panic + (error + 'f rawEvent)" where
  "rawEvent_unmarshal decode b e =
     (if length b < 8 then Inl AssertFailed
      else
        (case decode (drop 8 b) of
           Inl err \<Rightarrow> Inr (Inl err)
         | Inr m \<Rightarrow> Inr (Inr (normalize (e\<lparr>timestamp := getInt64 (take 8 b), dataMap := m\<rparr>)))))"

subsection \<open>Predicates of the statements\<close>

text \<open>The tags a table emits with: the memoised ones, or those it is about to memoise.\<close>

definition tagsOf :: "table \<Rightarrow> string list" where
  "tagsOf t = fst (ddTags t)"

text \<open>No object of the transaction's buckets holds more than \<open>M\<close> events.\<close>

definition objBound :: "nat \<Rightarrow> tx_buckets \<Rightarrow> bool" where
  "objBound M tx = (\<forall>nm sh. tx nm = Some sh \<longrightarrow> (\<forall>ob \<in> snd ` set sh. length ob \<le> M))"

text \<open>Every shard of the table has its bucket, as \<^verbatim>\<open>open\<close> leaves it.\<close>

definition shardsExist :: "int \<Rightarrow> tx_buckets \<Rightarrow> bool" where
  "shardsExist n tx = (\<forall>i. 0 \<le> i \<and> i < n \<longrightarrow> tx (shardDBName i) \<noteq> None)"

definition shardsEmpty :: "int \<Rightarrow> tx_buckets \<Rightarrow> bool" where
  "shardsEmpty n tx = (\<forall>i. 0 \<le> i \<and> i < n \<longrightarrow> tx (shardDBName i) = Some [])"

text \<open>
  A table that was created and is open: a positive shard count, the sweep position inside
  it, an open store and a bucket for every shard.
\<close>

definition wfTable :: "table \<Rightarrow> bool" where
  "wfTable t =
     (0 < shardCount t \<and> 0 \<le> currentShard t \<and> currentShard t < shardCount t \<and>
      (\<exists>d. db t = Some d \<and> dbOpened d \<and> shardsExist (shardCount t) (buckets d)))"

text \<open>The same inside the closure: \<^verbatim>\<open>sb\<close> is the bucket of the current shard.\<close>

definition wfSweep :: "sweep \<Rightarrow> bool" where
  "wfSweep s =
     (0 < shardCount (tab s) \<and> 0 \<le> currentShard (tab s) \<and>
      currentShard (tab s) < shardCount (tab s) \<and>
      shardsExist (shardCount (tab s)) (txn s) \<and>
      sb s = shardDBName (currentShard (tab s)))"

text \<open>The rollover counter, as the table emits it.\<close>

definition rolloverMetric :: "table \<Rightarrow> metric" where
  "rolloverMetric t = Count ''expiration.rollover'' 1 (tagsOf t)"

text \<open>The sweep position is at the end of its shard: the cursor yields the nil key.\<close>

definition exhausted :: "sweep \<Rightarrow> bool" where
  "exhausted s = (case txn s (sb s) of None \<Rightarrow> False | Some sh \<Rightarrow> nextObject (tab s) sh = None)"

text \<open>
  The two indexes of a schema hold the same properties, one by name and one by id (so names
  and ids are unique).
\<close>

definition schemaIndexed :: "table \<Rightarrow> bool" where
  "schemaIndexed t =
     ((\<forall>k p. properties t k = Some p \<longrightarrow> pName p = k \<and> propertiesByID t (pID p) = Some p) \<and>
      (\<forall>i p. propertiesByID t i = Some p \<longrightarrow> pID p = i \<and> properties t (pName p) = Some p))"

text \<open>Two data maps hold the same values up to the width of their numbers.\<close>

definition sameUpToWidth :: "(int \<rightharpoonup> 'f value) \<Rightarrow> (int \<rightharpoonup> 'f value) \<Rightarrow> bool" where
  "sameUpToWidth m m' = (\<forall>k. map_option promote (m' k) = map_option promote (m k))"

subsection \<open>The sweep, step by step\<close>

text \<open>The state after a rollover, and after a visit of the object \<open>k\<close> of the shard
  \<open>sh\<close> that left \<open>ob'\<close> of its events, with \<open>n\<close> events deleted so far.\<close>

definition rolled :: "sweep \<Rightarrow> sweep" where
  "rolled s =
     s\<lparr>tab := statsdCount ''expiration.rollover'' 1
              ((tab s)\<lparr>currentShard := goRem (currentShard (tab s) + 1) (shardCount (tab s)),
                       currentObject := None\<rparr>),
       sb := shardDBName (goRem (currentShard (tab s) + 1) (shardCount (tab s)))\<rparr>"

definition visited :: "bytes \<Rightarrow> shard_bucket \<Rightarrow> object_bucket \<Rightarrow> int \<Rightarrow> bool \<Rightarrow> sweep \<Rightarrow> sweep" where
  "visited k sh ob' n ex s =
     s\<lparr>tab := (tab s)\<lparr>currentObject := Some k\<rparr>,
       txn := (txn s)(sb s \<mapsto> (if ex then DeleteBucket k (bucketPut k ob' sh) else bucketPut k ob' sh)),
       events := n,
       objects := (if ex then objects s + 1 else objects s)\<rparr>"

fun rollovers :: "nat \<Rightarrow> sweep \<Rightarrow> sweep" where
  "rollovers 0 s = s"
| "rollovers (Suc n) s = rollovers n (rolled s)"

text \<open>The closure's variables at its start, its error, and the counters it emits at its end.\<close>

definition sweepInit :: "tx_buckets \<Rightarrow> table \<Rightarrow> sweep" where
  "sweepInit tx t = \<lparr>tab = t, txn = tx, sb = shardDBName (currentShard t), events = 0, objects = 0\<rparr>"

definition sweepErr :: "sweep \<Rightarrow> error option" where
  "sweepErr s = (if events s = 0 \<and> objects s = 0 then Some NoDeletes else None)"

definition sweepCounters :: "sweep \<Rightarrow> metric list" where
  "sweepCounters s =
     [Count ''expiration.sweep'' 1 (tagsOf (tab s))] @
     (if 0 < events s then [Count ''expiration.events'' (events s) (tagsOf (tab s))] else []) @
     (if 0 < objects s then [Count ''expiration.objects'' (objects s) (tagsOf (tab s))] else [])"

definition sweepEmit :: "sweep \<Rightarrow> table" where
  "sweepEmit s = (tab s)\<lparr>ddTagsCache := Some (tagsOf (tab s)),
                           statsd := statsd (tab s) @ sweepCounters s\<rparr>"

text \<open>The store after a write transaction, and the table after \<^verbatim>\<open>ddEmitStats\<close>.\<close>

definition afterTx :: "bolt \<Rightarrow> error option \<Rightarrow> tx_buckets \<Rightarrow> bolt_DB \<Rightarrow> bolt_DB" where
  "afterTx B err tx' d =
     (case err of
        None \<Rightarrow> d\<lparr>buckets := tx', stats := statsAfterTx B Committed (stats d),
                   txlog := txlog d @ [Committed]\<rparr>
      | Some e \<Rightarrow> d\<lparr>stats := statsAfterTx B RolledBack (stats d),
                     txlog := txlog d @ [RolledBack]\<rparr>)"

definition emitted :: "bolt \<Rightarrow> bolt_Stats \<Rightarrow> table \<Rightarrow> table" where
  "emitted B fresh t =
     t\<lparr>boltStats := Some fresh, ddTagsCache := Some (tagsOf t),
       statsd := statsd t @ ddStatsMetrics (statsSub B fresh (boltStats t)) (tagsOf t)\<rparr>"

text \<open>What a call of \<^verbatim>\<open>SweepNextBatch\<close> returned and left behind.\<close>

definition batchCounts :: "panic + ((int \<times> int \<times> int) \<times> table) \<Rightarrow> (int \<times> int \<times> int) option" where
  "batchCounts x = (case x of Inl _ \<Rightarrow> None | Inr (r, _) \<Rightarrow> Some r)"

definition batchTable :: "panic + ((int \<times> int \<times> int) \<times> table) \<Rightarrow> table option" where
  "batchTable x = (case x of Inl _ \<Rightarrow> None | Inr (_, t) \<Rightarrow> Some t)"

definition batchTxlog :: "panic + ((int \<times> int \<times> int) \<times> table) \<Rightarrow> tx_outcome list" where
  "batchTxlog x =
     (case batchTable x of
        None \<Rightarrow> []
      | Some t \<Rightarrow> (case db t of None \<Rightarrow> [] | Some d \<Rightarrow> txlog d))"

definition batchSink :: "panic + ((int \<times> int \<times> int) \<times> table) \<Rightarrow> metric list" where
  "batchSink x = (case batchTable x of None \<Rightarrow> [] | Some t \<Rightarrow> statsd t)"

subsection \<open>Example tables\<close>

text \<open>
  A store whose \<^verbatim>\<open>Sub\<close> subtracts the transaction counts and that counts its
  transactions; a table \<open>users\<close> with two empty shards; a table with one shard and one
  object \<open>a\<close> of 1001 events, at the microseconds 0 to 1000 after the shifted epoch, all
  before the bound; and a schema of two properties.
\<close>

definition zeroStats :: bolt_Stats where
  "zeroStats =
     \<lparr>FreePageN = 0, PendingPageN = 0, FreeAlloc = 0, FreelistInuse = 0, TxN = 0, OpenTxN = 0,
      TxStats = \<lparr>PageCount = 0, PageAlloc = 0, CursorCount = 0, NodeCount = 0, NodeDeref = 0,
                 Rebalance = 0, RebalanceTime = 0, Split = 0, Spill = 0, SpillTime = 0,
                 Write = 0, WriteTime = 0\<rparr>\<rparr>"

definition exBolt :: bolt where
  "exBolt =
     \<lparr>statsSub = (\<lambda>s old. case old of None \<Rightarrow> s | Some p \<Rightarrow> s\<lparr>TxN := TxN s - TxN p\<rparr>),
      statsAfterTx = (\<lambda>out s. s\<lparr>TxN := TxN s + 1\<rparr>)\<rparr>"

definition exBound :: bytes where
  "exBound = [0x40, 0, 0, 0, 0, 1, 0, 0]"

definition exKey :: "nat \<Rightarrow> bytes" where
  "exKey n = [0x40, 0, 0, 0, 0, 0, of_nat (n div 256), of_nat (n mod 256)]"

definition exDB0 :: bolt_DB where
  "exDB0 = \<lparr>dbOpened = True, buckets = [''shards/0'' \<mapsto> [], ''shards/1'' \<mapsto> []],
            stats = zeroStats, txlog = []\<rparr>"

definition exTable0 :: table where
  "exTable0 =
     \<lparr>db = Some exDB0, name = ''users'', path = ''/data/users'', properties = Map.empty, propertiesByID = Map.empty,
      shardCount = 2, maxPermanentID = 0, maxTransientID = 0, currentShard = 0,
      currentObject = None, ddTagsCache = None, boltStats = Some zeroStats, statsd = []\<rparr>"

definition exDB1 :: bolt_DB where
  "exDB1 = \<lparr>dbOpened = True, buckets = [''shards/0'' \<mapsto> [([0x61], map exKey [0..<1001])]],
            stats = zeroStats, txlog = []\<rparr>"

definition exTable1 :: table where
  "exTable1 =
     \<lparr>db = Some exDB1, name = ''users'', path = ''/data/users'', properties = Map.empty, propertiesByID = Map.empty,
      shardCount = 1, maxPermanentID = 0, maxTransientID = 0, currentShard = 0,
      currentObject = None, ddTagsCache = None, boltStats = Some zeroStats, statsd = []\<rparr>"

definition exAction :: property where
  "exAction = \<lparr>pID = 1, pName = ''action'', pDataType = ''factor'', pTransient = False\<rparr>"

definition exPrice :: property where
  "exPrice = \<lparr>pID = - 1, pName = ''price'', pDataType = ''float'', pTransient = True\<rparr>"

definition exSchema :: table where
  "exSchema =
     exTable0\<lparr>properties := [''action'' \<mapsto> exAction, ''price'' \<mapsto> exPrice],
              propertiesByID := [1 \<mapsto> exAction, - 1 \<mapsto> exPrice],
              maxPermanentID := 1, maxTransientID := 1\<rparr>"

text \<open>
  A store that cannot lock the file at \<open>/data/busy\<close> within the timeout and says so;
  a schema closure that does nothing; a hash for the examples; and an event of three values
  with the msgpack bytes of its data map, which a decoder reads back at other widths.
\<close>

definition exBoltOpen :: "string \<Rightarrow> int \<Rightarrow> bolt_Options \<Rightarrow> string + bolt_DB" where
  "exBoltOpen p mode opts = (if p = ''/data/busy'' then Inl ''timeout'' else Inr exDB0)"

definition exInit ::
  "tx_buckets \<Rightarrow> table \<Rightarrow> unit \<Rightarrow> panic + (error option \<times> tx_buckets \<times> table \<times> unit)" where
  "exInit tx t r = Inr (None, tx, t, r)"

definition exBusy :: table where
  "exBusy = exTable0\<lparr>db := None, path := ''/data/busy''\<rparr>"

definition exFail ::
  "tx_buckets \<Rightarrow> table \<Rightarrow> unit \<Rightarrow> panic + (error option \<times> tx_buckets \<times> table \<times> unit)" where
  "exFail tx t r = Inr (Some (TxError ''boom''), tx, t, r)"

definition exShut :: table where
  "exShut = exTable0\<lparr>db := Some (exDB0\<lparr>dbOpened := False\<rparr>)\<rparr>"

definition exHash :: "string \<Rightarrow> int" where
  "exHash s = int (length s)"

definition exNegHash :: "string \<Rightarrow> int" where
  "exNegHash s = - int (length s)"

definition exEvent :: "int rawEvent" where
  "exEvent =
     \<lparr>timestamp = 0x4000000000000001,
      dataMap = [1 \<mapsto> VInt 32 7, 2 \<mapsto> VString ''click'', 3 \<mapsto> VFloat 32 2]\<rparr>"

definition exWire :: bytes where
  "exWire = [0x83, 0x01, 0x07, 0x02, 0xA5, 0x63, 0x6C, 0x69, 0x63, 0x6B, 0x03, 0xCA, 0x40, 0, 0, 0]"

definition exEncode :: "(int \<rightharpoonup> int value) \<Rightarrow> error + bytes" where
  "exEncode m = (if m = dataMap exEvent then Inr exWire else Inl (Errorf ''unsupported''))"

definition exDecode :: "bytes \<Rightarrow> error + (int \<rightharpoonup> int value)" where
  "exDecode bs =
     (if bs = exWire
      then Inr [1 \<mapsto> VInt 8 7, 2 \<mapsto> VString ''click'', 3 \<mapsto> VFloat 32 2]
      else Inl (Errorf ''malformed''))"

section \<open>Properties\<close>

subsection \<open>Proofs: Telemetry tags and cursors\<close>

lemma ddTags_fst: "fst (ddTags t) = tagsOf t"
  by (simp add: tagsOf_def)

lemma tagsOf_case:
  "tagsOf t = (case ddTagsCache t of Some c \<Rightarrow> c | None \<Rightarrow> [''table:'' @ name t])"
  by (simp add: tagsOf_def ddTags_def split: option.splits)

lemma statsdCount_eq:
  "statsdCount n v t = t\<lparr>ddTagsCache := Some (tagsOf t), statsd := statsd t @ [Count n v (tagsOf t)]\<rparr>"
  by (cases "ddTagsCache t") (simp_all add: statsdCount_def ddTags_def tagsOf_def)

lemma tagsOf_statsdCount [simp]: "tagsOf (statsdCount n v t) = tagsOf t"
  by (cases "ddTagsCache t") (simp_all add: statsdCount_def ddTags_def tagsOf_def)

lemma tagsOf_upd [simp]:
  "tagsOf (t\<lparr>currentShard := a\<rparr>) = tagsOf t"
  "tagsOf (t\<lparr>currentObject := b\<rparr>) = tagsOf t"
  "tagsOf (t\<lparr>statsd := c\<rparr>) = tagsOf t"
  "tagsOf (t\<lparr>boltStats := e\<rparr>) = tagsOf t"
  "tagsOf (t\<lparr>db := f\<rparr>) = tagsOf t"
  "tagsOf (t\<lparr>ddTagsCache := Some (tagsOf t)\<rparr>) = tagsOf t"
  by (simp_all add: tagsOf_def ddTags_def split: option.splits)

lemma tagsOf_cache [simp]: "tagsOf (t\<lparr>ddTagsCache := Some c\<rparr>) = c"
  by (simp add: tagsOf_def ddTags_def)

lemma statsdCount_fields [simp]:
  "db (statsdCount n v t) = db t"
  "name (statsdCount n v t) = name t"
  "shardCount (statsdCount n v t) = shardCount t"
  "currentShard (statsdCount n v t) = currentShard t"
  "currentObject (statsdCount n v t) = currentObject t"
  "boltStats (statsdCount n v t) = boltStats t"
  "statsd (statsdCount n v t) = statsd t @ [Count n v (tagsOf t)]"
  "properties (statsdCount n v t) = properties t"
  by (simp_all add: statsdCount_eq)

lemma cursorFirst_mem: "cursorFirst ks = Some k \<Longrightarrow> k \<in> set ks"
  by (cases ks) (simp_all add: cursorFirst_def)

lemma cursorSeekNext_mem: "cursorSeekNext k0 ks = Some k \<Longrightarrow> k \<in> set ks"
proof -
  assume a: "cursorSeekNext k0 ks = Some k"
  then obtain x rest where d: "dropWhile (\<lambda>x. x < k0) ks = x # rest" and f: "cursorFirst rest = Some k"
    by (auto simp: cursorSeekNext_def split: list.splits)
  from f have "k \<in> set rest" by (rule cursorFirst_mem)
  then have "k \<in> set (dropWhile (\<lambda>x. x < k0) ks)" using d by simp
  then show ?thesis by (rule set_dropWhileD)
qed

lemma nextObject_mem: "nextObject t sh = Some k \<Longrightarrow> k \<in> fst ` set sh"
  by (auto simp: nextObject_def split: option.splits dest: cursorFirst_mem cursorSeekNext_mem)

lemma nextObject_get: "nextObject t sh = Some k \<Longrightarrow> \<exists>ob. bucketGet k sh = Some ob"
proof -
  assume "nextObject t sh = Some k"
  then have "k \<in> fst ` set sh" by (rule nextObject_mem)
  then have "map_of sh k \<noteq> None" by (simp add: map_of_eq_None_iff)
  then show ?thesis by (auto simp: bucketGet_def)
qed

lemma nextObject_empty [simp]: "nextObject t [] = None"
  by (simp add: nextObject_def cursorFirst_def cursorSeekNext_def split: option.splits)

lemma deleteExpired_props:
  "deleteExpired bound ob n = (ob', n', ex) \<Longrightarrow>
     n \<le> n' \<and> n' \<le> n + int (length ob) \<and> length ob' \<le> length ob"
proof (induction ob arbitrary: n)
  case Nil
  then show ?case by simp
next
  case (Cons k ks)
  show ?case
  proof (cases "k < bound")
    case True
    with Cons.prems have "deleteExpired bound ks (n + 1) = (ob', n', ex)" by simp
    from Cons.IH [OF this] show ?thesis by simp
  next
    case False
    with Cons.prems show ?thesis by auto
  qed
qed

lemma deleteExpired_all:
  "\<forall>k \<in> set ob. k < bound \<Longrightarrow> deleteExpired bound ob n = ([], n + int (length ob), True)"
  by (induction ob arbitrary: n) auto

lemma goRem_range: "0 \<le> a \<Longrightarrow> 0 < b \<Longrightarrow> 0 \<le> goRem a b \<and> goRem a b < b \<and> goRem a b = a mod b"
  by (cases "a = 0") (auto simp: goRem_def)

lemma bucketGet_mem: "bucketGet k sh = Some ob \<Longrightarrow> ob \<in> snd ` set sh"
  by (auto simp: bucketGet_def dest!: map_of_SomeD intro: rev_image_eqI)

subsection \<open>Proofs: One iteration of the sweep\<close>

lemma sweepStep_rollover:
  assumes "txn s (sb s) = Some sh" and "nextObject (tab s) sh = None"
    and "shardCount (tab s) \<noteq> 0"
    and "txn s (shardDBName (goRem (currentShard (tab s) + 1) (shardCount (tab s)))) \<noteq> None"
  shows "sweepStep bound s = Inr (rolled s)"
  using assms by (auto simp: sweepStep_def rolled_def ShardCount_def openCursor_def Let_def)

lemma sweepStep_visit:
  assumes "txn s (sb s) = Some sh" and "nextObject (tab s) sh = Some k"
    and "bucketGet k sh = Some ob" and "deleteExpired bound ob (events s) = (ob', n, ex)"
  shows "sweepStep bound s = Inr (visited k sh ob' n ex s)"
  using assms by (simp add: sweepStep_def visited_def Let_def)

lemma sweepStep_cases:
  assumes "sweepStep bound s = Inr s'"
  shows "(\<exists>sh. txn s (sb s) = Some sh \<and> nextObject (tab s) sh = None \<and> shardCount (tab s) \<noteq> 0 \<and>
            txn s (shardDBName (goRem (currentShard (tab s) + 1) (shardCount (tab s)))) \<noteq> None \<and>
            s' = rolled s) \<or>
         (\<exists>sh k ob ob' n ex. txn s (sb s) = Some sh \<and> nextObject (tab s) sh = Some k \<and>
            bucketGet k sh = Some ob \<and> deleteExpired bound ob (events s) = (ob', n, ex) \<and>
            s' = visited k sh ob' n ex s)"
proof -
  from assms obtain sh where sh: "txn s (sb s) = Some sh"
    by (auto simp: sweepStep_def split: option.splits)
  show ?thesis
  proof (cases "nextObject (tab s) sh")
    case None
    with assms sh have nz: "shardCount (tab s) \<noteq> 0"
      by (auto simp: sweepStep_def ShardCount_def split: if_splits)
    with assms sh None
    have ex: "txn s (shardDBName (goRem (currentShard (tab s) + 1) (shardCount (tab s)))) \<noteq> None"
      by (auto simp: sweepStep_def ShardCount_def openCursor_def Let_def split: option.splits)
    from sweepStep_rollover [OF sh None nz ex, of bound] assms have "s' = rolled s" by simp
    with sh None nz ex show ?thesis by blast
  next
    case (Some k)
    then obtain ob where ob: "bucketGet k sh = Some ob" using nextObject_get by blast
    obtain ob' n ex where de: "deleteExpired bound ob (events s) = (ob', n, ex)"
      by (cases "deleteExpired bound ob (events s)") auto
    from sweepStep_visit [OF sh Some ob de] assms have "s' = visited k sh ob' n ex s" by simp
    with sh Some ob de show ?thesis by blast
  qed
qed

lemma rolled_fields [simp]:
  "txn (rolled s) = txn s" "events (rolled s) = events s" "objects (rolled s) = objects s"
  "shardCount (tab (rolled s)) = shardCount (tab s)"
  "currentShard (tab (rolled s)) = goRem (currentShard (tab s) + 1) (shardCount (tab s))"
  "currentObject (tab (rolled s)) = None"
  "sb (rolled s) = shardDBName (goRem (currentShard (tab s) + 1) (shardCount (tab s)))"
  "tagsOf (tab (rolled s)) = tagsOf (tab s)"
  "statsd (tab (rolled s)) = statsd (tab s) @ [rolloverMetric (tab s)]"
  "db (tab (rolled s)) = db (tab s)"
  "name (tab (rolled s)) = name (tab s)"
  by (simp_all add: rolled_def rolloverMetric_def)

lemma rolled_boltStats [simp]: "boltStats (tab (rolled s)) = boltStats (tab s)"
  by (simp add: rolled_def)

lemma visited_fields [simp]:
  "events (visited k sh ob' n ex s) = n"
  "objects (visited k sh ob' n ex s) = (if ex then objects s + 1 else objects s)"
  "shardCount (tab (visited k sh ob' n ex s)) = shardCount (tab s)"
  "currentShard (tab (visited k sh ob' n ex s)) = currentShard (tab s)"
  "currentObject (tab (visited k sh ob' n ex s)) = Some k"
  "sb (visited k sh ob' n ex s) = sb s"
  "tagsOf (tab (visited k sh ob' n ex s)) = tagsOf (tab s)"
  "statsd (tab (visited k sh ob' n ex s)) = statsd (tab s)"
  "db (tab (visited k sh ob' n ex s)) = db (tab s)"
  "name (tab (visited k sh ob' n ex s)) = name (tab s)"
  "txn (visited k sh ob' n ex s) =
     (txn s)(sb s \<mapsto> (if ex then DeleteBucket k (bucketPut k ob' sh) else bucketPut k ob' sh))"
  by (simp_all add: visited_def)

lemma visited_boltStats [simp]: "boltStats (tab (visited k sh ob' n ex s)) = boltStats (tab s)"
  by (simp add: visited_def)

lemma objBound_put:
  assumes "objBound M tx" and "tx nm = Some sh" and "length ob' \<le> M"
  shows "objBound M (tx(nm \<mapsto> bucketPut k ob' sh))"
    and "objBound M (tx(nm \<mapsto> DeleteBucket k (bucketPut k ob' sh)))"
proof -
  have a: "\<And>x. x \<in> set sh \<Longrightarrow> length (snd x) \<le> M"
    using assms(1,2) by (auto simp: objBound_def)
  have b: "\<forall>x \<in> set (bucketPut k ob' sh). length (snd x) \<le> M"
    using a assms(3) by (auto simp: bucketPut_def split: if_splits)
  then have c: "\<forall>x \<in> set (DeleteBucket k (bucketPut k ob' sh)). length (snd x) \<le> M"
    by (simp add: DeleteBucket_def)
  from b assms(1) show "objBound M (tx(nm \<mapsto> bucketPut k ob' sh))"
    by (simp add: objBound_def)
  from c assms(1) show "objBound M (tx(nm \<mapsto> DeleteBucket k (bucketPut k ob' sh)))"
    by (simp add: objBound_def)
qed

lemma sweepStep_objBound:
  assumes "sweepStep bound s = Inr s'" and "objBound M (txn s)"
  shows "objBound M (txn s') \<and> events s \<le> events s' \<and> events s' \<le> events s + int M \<and>
         objects s \<le> objects s'"
  using sweepStep_cases [OF assms(1)]
proof (elim disjE exE conjE)
  fix sh assume "s' = rolled s"
  with assms(2) show ?thesis by simp
next
  fix sh k ob ob' n ex
  assume sh: "txn s (sb s) = Some sh" and ob: "bucketGet k sh = Some ob"
    and de: "deleteExpired bound ob (events s) = (ob', n, ex)"
    and s': "s' = visited k sh ob' n ex s"
  from bucketGet_mem [OF ob] sh assms(2) have len: "length ob \<le> M"
    by (auto simp: objBound_def)
  from deleteExpired_props [OF de]
  have p: "events s \<le> n" "n \<le> events s + int (length ob)" "length ob' \<le> length ob" by simp_all
  from p(3) len have "length ob' \<le> M" by simp
  from objBound_put [OF assms(2) sh this] have "objBound M (txn s')"
    by (simp add: s')
  moreover from p len have "events s \<le> events s'" "events s' \<le> events s + int M"
    by (simp_all add: s')
  moreover have "objects s \<le> objects s'" by (simp add: s')
  ultimately show ?thesis by simp
qed

lemma sweepStep_statsd:
  assumes "sweepStep bound s = Inr s'"
  shows "tagsOf (tab s') = tagsOf (tab s) \<and>
         (\<exists>n. statsd (tab s') = statsd (tab s) @ replicate n (rolloverMetric (tab s)))"
  using sweepStep_cases [OF assms]
proof (elim disjE exE conjE)
  fix sh assume "s' = rolled s"
  then have "statsd (tab s') = statsd (tab s) @ replicate 1 (rolloverMetric (tab s))"
    "tagsOf (tab s') = tagsOf (tab s)" by simp_all
  then show ?thesis by blast
next
  fix sh k ob ob' n ex
  assume "s' = visited k sh ob' n ex s"
  then have "statsd (tab s') = statsd (tab s) @ replicate 0 (rolloverMetric (tab s))"
    "tagsOf (tab s') = tagsOf (tab s)" by simp_all
  then show ?thesis by blast
qed

lemma sweepStep_keeps:
  assumes "sweepStep bound s = Inr s'"
  shows "boltStats (tab s') = boltStats (tab s) \<and> events s \<le> events s' \<and> objects s \<le> objects s'"
  using sweepStep_cases [OF assms]
proof (elim disjE exE conjE)
  fix sh assume "s' = rolled s"
  then show ?thesis by simp
next
  fix sh k ob ob' n ex
  assume de: "deleteExpired bound ob (events s) = (ob', n, ex)" and s': "s' = visited k sh ob' n ex s"
  from deleteExpired_props [OF de] s' show ?thesis by simp
qed

lemma shardsExist_upd:
  "shardsExist n tx \<Longrightarrow> shardsExist n (tx(nm \<mapsto> sh))"
  by (simp add: shardsExist_def)

lemma shardsExist_current:
  "shardsExist n tx \<Longrightarrow> 0 \<le> c \<Longrightarrow> c < n \<Longrightarrow> tx (shardDBName c) \<noteq> None"
  by (simp add: shardsExist_def)

lemma wfSweep_rolled: "wfSweep s \<Longrightarrow> wfSweep (rolled s)"
proof -
  assume a: "wfSweep s"
  then have "0 \<le> goRem (currentShard (tab s) + 1) (shardCount (tab s)) \<and>
        goRem (currentShard (tab s) + 1) (shardCount (tab s)) < shardCount (tab s)"
    using goRem_range [of "currentShard (tab s) + 1" "shardCount (tab s)"]
    by (simp add: wfSweep_def)
  with a show ?thesis by (simp add: wfSweep_def)
qed

lemma sweepStep_wf:
  assumes "wfSweep s"
  shows "\<exists>s'. sweepStep bound s = Inr s' \<and> wfSweep s' \<and>
           shardCount (tab s') = shardCount (tab s) \<and> db (tab s') = db (tab s)"
proof -
  let ?n = "shardCount (tab s)" and ?c = "currentShard (tab s)"
  from assms have n: "0 < ?n" and c: "0 \<le> ?c" "?c < ?n"
    and ex: "shardsExist ?n (txn s)" and sb: "sb s = shardDBName ?c"
    by (simp_all add: wfSweep_def)
  from ex c sb obtain sh where sh: "txn s (sb s) = Some sh"
    by (auto simp: shardsExist_def)
  have r: "0 \<le> goRem (?c + 1) ?n" "goRem (?c + 1) ?n < ?n"
    using goRem_range [of "?c + 1" ?n] c n by simp_all
  show ?thesis
  proof (cases "nextObject (tab s) sh")
    case None
    from ex r have "txn s (shardDBName (goRem (?c + 1) ?n)) \<noteq> None"
      by (simp add: shardsExist_def)
    with n have "sweepStep bound s = Inr (rolled s)"
      by (intro sweepStep_rollover [OF sh None]) simp_all
    moreover have "wfSweep (rolled s)"
      using n r ex by (simp add: wfSweep_def)
    ultimately show ?thesis by simp
  next
    case (Some k)
    then obtain ob where ob: "bucketGet k sh = Some ob" using nextObject_get by blast
    obtain ob' m e where de: "deleteExpired bound ob (events s) = (ob', m, e)"
      by (cases "deleteExpired bound ob (events s)") auto
    have "sweepStep bound s = Inr (visited k sh ob' m e s)"
      by (rule sweepStep_visit [OF sh Some ob de])
    moreover have "wfSweep (visited k sh ob' m e s)"
      using n c ex sb by (simp add: wfSweep_def shardsExist_upd)
    ultimately show ?thesis by simp
  qed
qed

lemma sweepStep_empty:
  assumes "wfSweep s" and "shardsEmpty (shardCount (tab s)) (txn s)"
  shows "sweepStep bound s = Inr (rolled s)"
proof -
  let ?n = "shardCount (tab s)" and ?c = "currentShard (tab s)"
  from assms(1) have n: "0 < ?n" and c: "0 \<le> ?c" "?c < ?n"
    and sb: "sb s = shardDBName ?c"
    by (simp_all add: wfSweep_def)
  from assms(2) c sb have sh: "txn s (sb s) = Some []"
    by (simp add: shardsEmpty_def)
  have r: "0 \<le> goRem (?c + 1) ?n" "goRem (?c + 1) ?n < ?n"
    using goRem_range [of "?c + 1" ?n] c n by simp_all
  with assms(2) have "txn s (shardDBName (goRem (?c + 1) ?n)) \<noteq> None"
    by (simp add: shardsEmpty_def)
  with n show ?thesis
    by (intro sweepStep_rollover [OF sh]) simp_all
qed

subsection \<open>Proofs: The loop\<close>

lemma sweepLoop_exit:
  "\<not> (swept < SweepBatchSize \<and> events s < SweepBatchSize) \<Longrightarrow> sweepLoop bound swept s = Inr (swept, s)"
  by (subst sweepLoop.simps) auto

lemma sweepLoop_step:
  "swept < SweepBatchSize \<and> events s < SweepBatchSize \<Longrightarrow> sweepStep bound s = Inr s1 \<Longrightarrow>
     sweepLoop bound swept s = sweepLoop bound (swept + 1) s1"
  by (subst sweepLoop.simps) simp

lemma sweepLoop_Inr_step:
  assumes "sweepLoop bound swept s = Inr r" and "swept < SweepBatchSize \<and> events s < SweepBatchSize"
  obtains s1 where "sweepStep bound s = Inr s1" and "sweepLoop bound (swept + 1) s1 = Inr r"
  using assms by (subst (asm) sweepLoop.simps) (auto split: sum.splits)

lemma sweepLoop_objBound:
  assumes "sweepLoop bound sw s = Inr (sw', s')" and "objBound M (txn s)"
    and "sw \<le> SweepBatchSize" and "events s < SweepBatchSize + int M"
  shows "sw \<le> sw' \<and> sw' \<le> SweepBatchSize \<and> events s' < SweepBatchSize + int M \<and>
         (sw' = SweepBatchSize \<or> SweepBatchSize \<le> events s') \<and>
         events s \<le> events s' \<and> objects s \<le> objects s'"
  using assms
proof (induction bound sw s rule: sweepLoop.induct)
  case (1 bound swept s)
  show ?case
  proof (cases "swept < SweepBatchSize \<and> events s < SweepBatchSize")
    case True
    from "1.prems"(1) True obtain s1 where st: "sweepStep bound s = Inr s1"
      and lp: "sweepLoop bound (swept + 1) s1 = Inr (sw', s')"
      by (rule sweepLoop_Inr_step)
    from sweepStep_objBound [OF st "1.prems"(2)]
    have b: "objBound M (txn s1)" and e: "events s \<le> events s1" "events s1 \<le> events s + int M"
      and o: "objects s \<le> objects s1" by simp_all
    from True have sw1: "swept + 1 \<le> SweepBatchSize" by simp
    from True e have e1: "events s1 < SweepBatchSize + int M" by simp
    from "1.IH" [OF True st lp b sw1 e1] e o show ?thesis by auto
  next
    case False
    with "1.prems"(1) have "sw' = swept" "s' = s" by (simp_all add: sweepLoop_exit)
    with False "1.prems" show ?thesis by auto
  qed
qed

lemma sweepLoop_statsd:
  assumes "sweepLoop bound sw s = Inr (sw', s')"
  shows "tagsOf (tab s') = tagsOf (tab s) \<and>
         (\<exists>n. statsd (tab s') = statsd (tab s) @ replicate n (rolloverMetric (tab s)))"
  using assms
proof (induction bound sw s rule: sweepLoop.induct)
  case (1 bound swept s)
  show ?case
  proof (cases "swept < SweepBatchSize \<and> events s < SweepBatchSize")
    case True
    from "1.prems"(1) True obtain s1 where st: "sweepStep bound s = Inr s1"
      and lp: "sweepLoop bound (swept + 1) s1 = Inr (sw', s')"
      by (rule sweepLoop_Inr_step)
    from sweepStep_statsd [OF st] obtain n where
      t1: "tagsOf (tab s1) = tagsOf (tab s)"
      and m1: "statsd (tab s1) = statsd (tab s) @ replicate n (rolloverMetric (tab s))" by blast
    from "1.IH" [OF True st lp] obtain m where
      t2: "tagsOf (tab s') = tagsOf (tab s1)"
      and m2: "statsd (tab s') = statsd (tab s1) @ replicate m (rolloverMetric (tab s1))" by blast
    from t1 have "rolloverMetric (tab s1) = rolloverMetric (tab s)" by (simp add: rolloverMetric_def)
    with m1 m2 have "statsd (tab s') = statsd (tab s) @ replicate (n + m) (rolloverMetric (tab s))"
      by (simp add: replicate_add)
    with t1 t2 show ?thesis by auto
  next
    case False
    with "1.prems"(1) have "s' = s" by (simp add: sweepLoop_exit)
    then have "statsd (tab s') = statsd (tab s) @ replicate 0 (rolloverMetric (tab s))" by simp
    with \<open>s' = s\<close> show ?thesis by blast
  qed
qed

lemma sweepLoop_keeps:
  assumes "sweepLoop bound sw s = Inr (sw', s')"
  shows "boltStats (tab s') = boltStats (tab s) \<and> events s \<le> events s' \<and> objects s \<le> objects s'"
  using assms
proof (induction bound sw s rule: sweepLoop.induct)
  case (1 bound swept s)
  show ?case
  proof (cases "swept < SweepBatchSize \<and> events s < SweepBatchSize")
    case True
    from "1.prems"(1) True obtain s1 where st: "sweepStep bound s = Inr s1"
      and lp: "sweepLoop bound (swept + 1) s1 = Inr (sw', s')"
      by (rule sweepLoop_Inr_step)
    from sweepStep_keeps [OF st] "1.IH" [OF True st lp] show ?thesis by simp
  next
    case False
    with "1.prems"(1) have "s' = s" by (simp add: sweepLoop_exit)
    then show ?thesis by simp
  qed
qed

lemma sweepLoop_wf:
  assumes "wfSweep s"
  shows "\<exists>sw' s'. sweepLoop bound sw s = Inr (sw', s') \<and> wfSweep s' \<and>
           shardCount (tab s') = shardCount (tab s) \<and> db (tab s') = db (tab s)"
  using assms
proof (induction bound sw s rule: sweepLoop.induct)
  case (1 bound swept s)
  show ?case
  proof (cases "swept < SweepBatchSize \<and> events s < SweepBatchSize")
    case True
    from sweepStep_wf [OF "1.prems"] obtain s1 where st: "sweepStep bound s = Inr s1"
      and wf: "wfSweep s1" and eq: "shardCount (tab s1) = shardCount (tab s)" "db (tab s1) = db (tab s)"
      by blast
    from "1.IH" [OF True st wf] eq sweepLoop_step [OF True st] show ?thesis by auto
  next
    case False
    with "1.prems" show ?thesis by (simp add: sweepLoop_exit)
  qed
qed

lemma sweepLoop_empty:
  assumes "wfSweep s" and "shardsEmpty (shardCount (tab s)) (txn s)"
    and "sw \<le> SweepBatchSize" and "events s < SweepBatchSize"
  shows "sweepLoop bound sw s = Inr (SweepBatchSize, rollovers (nat (SweepBatchSize - sw)) s)"
  using assms
proof (induction bound sw s rule: sweepLoop.induct)
  case (1 bound swept s)
  show ?case
  proof (cases "swept < SweepBatchSize")
    case True
    with "1.prems"(4) have c: "swept < SweepBatchSize \<and> events s < SweepBatchSize" by simp
    have st: "sweepStep bound s = Inr (rolled s)"
      by (rule sweepStep_empty [OF "1.prems"(1,2)])
    have wf: "wfSweep (rolled s)" by (rule wfSweep_rolled [OF "1.prems"(1)])
    from "1.prems"(2) have em: "shardsEmpty (shardCount (tab (rolled s))) (txn (rolled s))" by simp
    from True have sw1: "swept + 1 \<le> SweepBatchSize" by simp
    from "1.prems"(4) have e1: "events (rolled s) < SweepBatchSize" by simp
    from True have "nat (SweepBatchSize - swept) = Suc (nat (SweepBatchSize - (swept + 1)))" by simp
    with "1.IH" [OF c st wf em sw1 e1] sweepLoop_step [OF c st] show ?thesis by simp
  next
    case False
    with "1.prems"(3) have "swept = SweepBatchSize" by simp
    then show ?thesis by (simp add: sweepLoop_exit)
  qed
qed

lemma rollovers_fields [simp]:
  "txn (rollovers n s) = txn s" "events (rollovers n s) = events s"
  "objects (rollovers n s) = objects s"
  "shardCount (tab (rollovers n s)) = shardCount (tab s)"
  "tagsOf (tab (rollovers n s)) = tagsOf (tab s)"
  "db (tab (rollovers n s)) = db (tab s)"
  "name (tab (rollovers n s)) = name (tab s)"
  by (induction n arbitrary: s) simp_all

lemma rollovers_statsd:
  "statsd (tab (rollovers n s)) = statsd (tab s) @ replicate n (rolloverMetric (tab s))"
proof (induction n arbitrary: s)
  case 0
  then show ?case by simp
next
  case (Suc n)
  have "rolloverMetric (tab (rolled s)) = rolloverMetric (tab s)" by (simp add: rolloverMetric_def)
  with Suc show ?case by (simp add: replicate_app_Cons_same)
qed

lemma rollovers_wf: "wfSweep s \<Longrightarrow> wfSweep (rollovers n s)"
  by (induction n arbitrary: s) (simp_all add: wfSweep_rolled)

subsection \<open>Proofs: The closure and the transaction\<close>

lemma sweepInit_fields [simp]:
  "tab (sweepInit tx t) = t" "txn (sweepInit tx t) = tx"
  "sb (sweepInit tx t) = shardDBName (currentShard t)"
  "events (sweepInit tx t) = 0" "objects (sweepInit tx t) = 0"
  by (simp_all add: sweepInit_def)

lemma sweepEmit_fields [simp]:
  "db (sweepEmit s) = db (tab s)" "shardCount (sweepEmit s) = shardCount (tab s)"
  "currentShard (sweepEmit s) = currentShard (tab s)"
  "currentObject (sweepEmit s) = currentObject (tab s)"
  "boltStats (sweepEmit s) = boltStats (tab s)" "name (sweepEmit s) = name (tab s)"
  "statsd (sweepEmit s) = statsd (tab s) @ sweepCounters s"
  "tagsOf (sweepEmit s) = tagsOf (tab s)"
  by (simp_all add: sweepEmit_def)

lemma emitted_fields [simp]:
  "db (emitted B f t) = db t" "shardCount (emitted B f t) = shardCount t"
  "currentShard (emitted B f t) = currentShard t" "currentObject (emitted B f t) = currentObject t"
  "boltStats (emitted B f t) = Some f" "name (emitted B f t) = name t"
  "statsd (emitted B f t) = statsd t @ ddStatsMetrics (statsSub B f (boltStats t)) (tagsOf t)"
  "tagsOf (emitted B f t) = tagsOf t"
  by (simp_all add: emitted_def)

lemma afterTx_fields [simp]:
  "dbOpened (afterTx B err tx' d) = dbOpened d"
  "buckets (afterTx B err tx' d) = (if err = None then tx' else buckets d)"
  "txlog (afterTx B err tx' d) = txlog d @ [if err = None then Committed else RolledBack]"
  "stats (afterTx B err tx' d) =
     statsAfterTx B (if err = None then Committed else RolledBack) (stats d)"
  by (cases err; simp add: afterTx_def)+

lemma sweepFn_eq:
  assumes "tx (shardDBName (currentShard t)) \<noteq> None"
    and "sweepLoop bound 0 (sweepInit tx t) = Inr (sw, s)"
  shows "sweepFn bound tx t (0, 0, 0) = Inr (sweepErr s, txn s, sweepEmit s, (sw, events s, objects s))"
proof -
  from assms(1) have oc: "openCursor tx (shardDBName (currentShard t)) = Inr (shardDBName (currentShard t))"
    by (auto simp: openCursor_def)
  show ?thesis
    using oc assms(2)
    by (cases "events s = 0"; cases "objects s = 0")
       (simp_all add: sweepFn_def sweepInit_def sweepErr_def Let_def statsdCount_eq
          sweepEmit_def sweepCounters_def)
qed

lemma sweepFn_cases:
  assumes "sweepFn bound tx t (0, 0, 0) = Inr (err, tx', t', r)"
  shows "\<exists>sw s. tx (shardDBName (currentShard t)) \<noteq> None \<and>
           sweepLoop bound 0 (sweepInit tx t) = Inr (sw, s) \<and>
           err = sweepErr s \<and> tx' = txn s \<and> t' = sweepEmit s \<and> r = (sw, events s, objects s)"
proof -
  from assms have ex: "tx (shardDBName (currentShard t)) \<noteq> None"
    by (auto simp: sweepFn_def openCursor_def split: option.splits)
  then have oc: "openCursor tx (shardDBName (currentShard t)) = Inr (shardDBName (currentShard t))"
    by (auto simp: openCursor_def)
  from assms oc obtain sw s where lp: "sweepLoop bound 0 (sweepInit tx t) = Inr (sw, s)"
    by (cases "sweepLoop bound 0 (sweepInit tx t)") (auto simp: sweepFn_def sweepInit_def)
  from sweepFn_eq [OF ex lp] assms ex lp show ?thesis by auto
qed

lemma ddEmitStats_eq:
  "db t = Some d \<Longrightarrow> ddEmitStats B t = Inr (emitted B (stats d) t)"
  by (cases "ddTagsCache t") (simp_all add: ddEmitStats_def emitted_def ddTags_def tagsOf_def Let_def)

lemma Update_open:
  assumes "db t = Some d" and "dbOpened d" and "fn (buckets d) t r = Inr (err, tx', t1, r')"
  shows "Update B fn t r =
           Inr (err, emitted B (stats (afterTx B err tx' d)) (t1\<lparr>db := Some (afterTx B err tx' d)\<rparr>), r')"
proof (cases err)
  case None
  with assms show ?thesis
    by (simp add: Update_def dbUpdate_def afterTx_def ddEmitStats_eq)
next
  case (Some e)
  with assms show ?thesis
    by (simp add: Update_def dbUpdate_def afterTx_def ddEmitStats_eq)
qed

lemma Update_closed:
  assumes "db t = Some d" and "\<not> dbOpened d"
  shows "Update B fn t r = Inr (Some ErrDatabaseNotOpen, emitted B (stats d) t, r)"
  using assms by (simp add: Update_def dbUpdate_def ddEmitStats_eq)

lemma Update_panic:
  assumes "db t = Some d" and "dbOpened d" and "fn (buckets d) t r = Inl p"
  shows "Update B fn t r = Inl p"
  using assms by (simp add: Update_def dbUpdate_def)

lemma SweepNextBatch_open:
  assumes "db t = Some d" and "dbOpened d"
    and "sweepFn bound (buckets d) t (0, 0, 0) = Inr (err, tx', t1, r)"
  shows "SweepNextBatch B bound t =
           Inr (r, emitted B (stats (afterTx B err tx' d)) (t1\<lparr>db := Some (afterTx B err tx' d)\<rparr>))"
  using assms(1) Update_open [where fn = "sweepFn bound", OF assms, of B]
  by (simp add: SweepNextBatch_def opened_def)

lemma SweepNextBatch_cases:
  assumes "SweepNextBatch B bound t = Inr (r, t')"
  shows "(db t = None \<and> r = (0, 0, 0) \<and> t' = t) \<or>
         (\<exists>d. db t = Some d \<and> \<not> dbOpened d \<and> r = (0, 0, 0) \<and> t' = emitted B (stats d) t) \<or>
         (\<exists>d err tx' t1. db t = Some d \<and> dbOpened d \<and>
            sweepFn bound (buckets d) t (0, 0, 0) = Inr (err, tx', t1, r) \<and>
            t' = emitted B (stats (afterTx B err tx' d)) (t1\<lparr>db := Some (afterTx B err tx' d)\<rparr>))"
proof (cases "db t")
  case None
  with assms show ?thesis by (simp add: SweepNextBatch_def opened_def)
next
  case (Some d)
  show ?thesis
  proof (cases "dbOpened d")
    case False
    with Some assms Update_closed [OF Some False, of B "sweepFn bound" "(0, 0, 0)"]
    show ?thesis by (simp add: SweepNextBatch_def opened_def)
  next
    case True
    show ?thesis
    proof (cases "sweepFn bound (buckets d) t (0, 0, 0)")
      case (Inl p)
      with assms Some Update_panic [where fn = "sweepFn bound", OF Some True Inl, of B] show ?thesis
        by (simp add: SweepNextBatch_def opened_def)
    next
      case (Inr x)
      obtain err tx' t1 r1 where x: "x = (err, tx', t1, r1)" by (cases x) auto
      from SweepNextBatch_open [OF Some True Inr [unfolded x], of B] assms Some True Inr x
      show ?thesis by auto
    qed
  qed
qed

lemma wfSweep_init:
  assumes "wfTable t" and "db t = Some d"
  shows "wfSweep (sweepInit (buckets d) t)"
  using assms by (auto simp: wfTable_def wfSweep_def)

lemma SweepNextBatch_wf:
  assumes "wfTable t" and "db t = Some d"
  shows "\<exists>sw s. sweepLoop bound 0 (sweepInit (buckets d) t) = Inr (sw, s) \<and> wfSweep s \<and>
           shardCount (tab s) = shardCount t \<and>
           SweepNextBatch B bound t =
             Inr ((sw, events s, objects s),
                  emitted B (stats (afterTx B (sweepErr s) (txn s) d))
                    ((sweepEmit s)\<lparr>db := Some (afterTx B (sweepErr s) (txn s) d)\<rparr>))"
proof -
  from assms have op: "dbOpened d" and ex: "shardsExist (shardCount t) (buckets d)"
    and c: "0 \<le> currentShard t" "currentShard t < shardCount t"
    by (auto simp: wfTable_def)
  from sweepLoop_wf [OF wfSweep_init [OF assms], of bound 0] obtain sw s where
    lp: "sweepLoop bound 0 (sweepInit (buckets d) t) = Inr (sw, s)" and wf: "wfSweep s"
    and n: "shardCount (tab s) = shardCount t" by auto
  have cur: "buckets d (shardDBName (currentShard t)) \<noteq> None"
    by (rule shardsExist_current [OF ex c])
  from SweepNextBatch_open [OF assms(2) op sweepFn_eq [OF cur lp], of B] lp wf n
  show ?thesis by blast
qed

lemma SweepNextBatch_empty:
  assumes "wfTable t" and "db t = Some d" and "shardsEmpty (shardCount t) (buckets d)"
  shows "SweepNextBatch B bound t =
           Inr ((SweepBatchSize, 0, 0),
                emitted B (stats (afterTx B (Some NoDeletes) (buckets d) d))
                  ((sweepEmit (rollovers 1000 (sweepInit (buckets d) t)))
                     \<lparr>db := Some (afterTx B (Some NoDeletes) (buckets d) d)\<rparr>))"
proof -
  let ?ini = "sweepInit (buckets d) t"
  let ?fin = "rollovers 1000 ?ini"
  from assms have op: "dbOpened d" and ex: "shardsExist (shardCount t) (buckets d)"
    and c: "0 \<le> currentShard t" "currentShard t < shardCount t"
    by (auto simp: wfTable_def)
  have "sweepLoop bound 0 ?ini = Inr (SweepBatchSize, rollovers (nat (SweepBatchSize - 0)) ?ini)"
    by (rule sweepLoop_empty [OF wfSweep_init [OF assms(1,2)]])
       (simp_all add: assms(3) SweepBatchSize_def)
  then have lp: "sweepLoop bound 0 ?ini = Inr (SweepBatchSize, ?fin)"
    by (simp add: SweepBatchSize_def)
  have cur: "buckets d (shardDBName (currentShard t)) \<noteq> None"
    by (rule shardsExist_current [OF ex c])
  have e: "sweepErr ?fin = Some NoDeletes" by (simp add: sweepErr_def)
  from SweepNextBatch_open [OF assms(2) op sweepFn_eq [OF cur lp], of B] e
  show ?thesis by simp
qed

subsection \<open>Proofs: The example tables\<close>

lemma showNat_digit: "n < 10 \<Longrightarrow> showNat n = [digitChar n]"
  by (subst showNat.simps) simp

lemma shardDBName_0: "shardDBName 0 = ''shards/0''"
  by (simp add: shardDBName_def showInt_def showNat_digit digitChar_def)

lemma shardDBName_1: "shardDBName 1 = ''shards/1''"
  by (simp add: shardDBName_def showInt_def showNat_digit digitChar_def)

lemma ex0_exist: "shardsExist 2 (buckets exDB0)"
  unfolding shardsExist_def
proof (intro allI impI)
  fix i :: int
  assume "0 \<le> i \<and> i < 2"
  then have "i = 0 \<or> i = 1" by arith
  then show "buckets exDB0 (shardDBName i) \<noteq> None"
    by (auto simp: exDB0_def shardDBName_0 shardDBName_1)
qed

lemma ex0_empty: "shardsEmpty 2 (buckets exDB0)"
  unfolding shardsEmpty_def
proof (intro allI impI)
  fix i :: int
  assume "0 \<le> i \<and> i < 2"
  then have "i = 0 \<or> i = 1" by arith
  then show "buckets exDB0 (shardDBName i) = Some []"
    by (auto simp: exDB0_def shardDBName_0 shardDBName_1)
qed

lemma ex0_db: "db exTable0 = Some exDB0" "dbOpened exDB0" "shardCount exTable0 = 2"
  by (simp_all add: exTable0_def exDB0_def)

lemma ex0_wf: "wfTable exTable0"
  using ex0_exist by (simp add: wfTable_def ex0_db) (simp add: exTable0_def)

lemma ex0_tags: "tagsOf exTable0 = [''table:users'']"
  by (simp add: tagsOf_def ddTags_def exTable0_def)

lemma ex0_batch:
  "SweepNextBatch exBolt exBound exTable0 =
     Inr ((1000, 0, 0),
          emitted exBolt (stats (afterTx exBolt (Some NoDeletes) (buckets exDB0) exDB0))
            ((sweepEmit (rollovers 1000 (sweepInit (buckets exDB0) exTable0)))
               \<lparr>db := Some (afterTx exBolt (Some NoDeletes) (buckets exDB0) exDB0)\<rparr>))"
  using SweepNextBatch_empty [OF ex0_wf ex0_db(1), of exBolt exBound] ex0_empty
  by (simp add: ex0_db SweepBatchSize_def)

lemma ex0_counts: "batchCounts (SweepNextBatch exBolt exBound exTable0) = Some (1000, 0, 0)"
  by (simp add: ex0_batch batchCounts_def)

lemma ex1_db: "db exTable1 = Some exDB1" "dbOpened exDB1" "shardCount exTable1 = 1"
  "currentShard exTable1 = 0" "currentObject exTable1 = None"
  by (simp_all add: exTable1_def exDB1_def)

lemma ex1_expired: "\<forall>k \<in> set (map exKey [0..<1001]). k < exBound"
  by (simp add: exKey_def exBound_def)

lemma ex1_loop:
  "sweepLoop exBound 0 (sweepInit (buckets exDB1) exTable1) =
     Inr (1, visited [0x61] [([0x61], map exKey [0..<1001])] [] 1001 True
               (sweepInit (buckets exDB1) exTable1))"
proof -
  let ?ini = "sweepInit (buckets exDB1) exTable1"
  let ?sh = "[([0x61], map exKey [0..<1001])] :: shard_bucket"
  have sh: "txn ?ini (sb ?ini) = Some ?sh"
    by (simp add: ex1_db shardDBName_0) (simp add: exDB1_def)
  have nx: "nextObject (tab ?ini) ?sh = Some [0x61]"
    by (simp add: nextObject_def ex1_db cursorFirst_def)
  have ob: "bucketGet [0x61] ?sh = Some (map exKey [0..<1001])"
    by (simp add: bucketGet_def)
  have de: "deleteExpired exBound (map exKey [0..<1001]) (events ?ini) = ([], 1001, True)"
    using deleteExpired_all [OF ex1_expired, of 0] by simp
  have st: "sweepStep exBound ?ini = Inr (visited [0x61] ?sh [] 1001 True ?ini)"
    by (rule sweepStep_visit [OF sh nx ob de])
  have "sweepLoop exBound 0 ?ini = sweepLoop exBound (0 + 1) (visited [0x61] ?sh [] 1001 True ?ini)"
    by (rule sweepLoop_step [OF _ st]) (simp add: SweepBatchSize_def)
  also have "\<dots> = Inr (0 + 1, visited [0x61] ?sh [] 1001 True ?ini)"
    by (rule sweepLoop_exit) (simp add: SweepBatchSize_def)
  finally show ?thesis by simp
qed

lemma ex1_batch:
  "\<exists>t'. SweepNextBatch exBolt exBound exTable1 = Inr ((1, 1001, 1), t')"
proof -
  have cur: "buckets exDB1 (shardDBName (currentShard exTable1)) \<noteq> None"
    by (simp add: ex1_db shardDBName_0) (simp add: exDB1_def)
  from SweepNextBatch_open [OF ex1_db(1,2) sweepFn_eq [OF cur ex1_loop], of exBolt]
  show ?thesis by simp
qed

lemma ex1_counts: "batchCounts (SweepNextBatch exBolt exBound exTable1) = Some (1, 1001, 1)"
  using ex1_batch by (auto simp: batchCounts_def)

lemma ex1_objBound: "objBound 1001 (buckets exDB1)"
  by (auto simp: objBound_def exDB1_def split: if_splits)

subsection \<open>Proofs: The sweeper\<close>

text \<open>
  C1, as amended. The loop tests its two counters between objects only, and the inner loop
  deletes every expired event of the object it is on. So a batch returns with
  \<open>swept\<close> at most \<^verbatim>\<open>SweepBatchSize\<close>, and with \<open>events\<close> below
  \<^verbatim>\<open>SweepBatchSize\<close> plus the size \<open>M\<close> of the largest object; when the
  closure ran, one of the two counters has reached \<^verbatim>\<open>SweepBatchSize\<close>.
\<close>

theorem sweep_batch_bound:
  assumes "SweepNextBatch B bound t = Inr ((sw, ev, ob), t')"
    and "\<forall>d. db t = Some d \<longrightarrow> objBound M (buckets d)"
  shows "0 \<le> sw \<and> sw \<le> SweepBatchSize \<and> 0 \<le> ev \<and> ev < SweepBatchSize + int M \<and>
         (\<forall>d. db t = Some d \<and> dbOpened d \<longrightarrow> sw = SweepBatchSize \<or> SweepBatchSize \<le> ev)"
  using SweepNextBatch_cases [OF assms(1)]
proof (elim disjE exE conjE)
  assume "db t = None" "(sw, ev, ob) = (0, 0, 0)"
  then show ?thesis by (simp add: SweepBatchSize_def)
next
  fix d assume "db t = Some d" "\<not> dbOpened d" "(sw, ev, ob) = (0, 0, 0)"
  then show ?thesis by (simp add: SweepBatchSize_def)
next
  fix d err tx' t1
  assume d: "db t = Some d"
    and fn: "sweepFn bound (buckets d) t (0, 0, 0) = Inr (err, tx', t1, (sw, ev, ob))"
  from sweepFn_cases [OF fn] obtain s where
    lp: "sweepLoop bound 0 (sweepInit (buckets d) t) = Inr (sw, s)" and ev: "ev = events s"
    by auto
  from assms(2) d have b: "objBound M (txn (sweepInit (buckets d) t))" by simp
  have "0 \<le> sw \<and> sw \<le> SweepBatchSize \<and> events s < SweepBatchSize + int M \<and>
        (sw = SweepBatchSize \<or> SweepBatchSize \<le> events s) \<and>
        events (sweepInit (buckets d) t) \<le> events s \<and> objects (sweepInit (buckets d) t) \<le> objects s"
    by (rule sweepLoop_objBound [OF lp b]) (simp_all add: SweepBatchSize_def)
  with ev show ?thesis by simp
qed

theorem sweep_batch_bound_witness:
  "batchCounts (SweepNextBatch exBolt exBound exTable1) = Some (1, 1001, 1) \<and>
   objBound 1001 (buckets exDB1) \<and>
   (1::int) \<le> SweepBatchSize \<and> (1001::int) < SweepBatchSize + int 1001 \<and>
   SweepBatchSize \<le> (1001::int)"
proof -
  from ex1_batch obtain t' where r: "SweepNextBatch exBolt exBound exTable1 = Inr ((1, 1001, 1), t')"
    by blast
  have b: "\<forall>d. db exTable1 = Some d \<longrightarrow> objBound 1001 (buckets d)"
    using ex1_objBound by (simp add: ex1_db)
  from sweep_batch_bound [OF r b] ex1_db ex1_counts ex1_objBound show ?thesis
    by (simp add: SweepBatchSize_def)
qed

text \<open>
  C1 as stated fails: one object of 1001 expired events is swept in one pass, and the batch
  returns 1001 deleted events.
\<close>

theorem sweep_events_exceed_batch:
  "batchCounts (SweepNextBatch exBolt exBound exTable1) = Some (1, 1001, 1) \<and>
   \<not> (1001::int) \<le> SweepBatchSize"
  using ex1_counts by (simp add: SweepBatchSize_def)

text \<open>
  C2. When a batch on an open table returns with no event and no object deleted, its closure
  returned \<^verbatim>\<open>NoDeletes\<close>, the write transaction was rolled back (the buckets are
  those of before, and the store's history ends with a rollback), and
  \<^verbatim>\<open>SweepNextBatch\<close> returned its counts: its result has no error in it.
\<close>

theorem sweep_no_deletions_rolls_back:
  assumes "db t = Some d" and "dbOpened d"
    and "batchCounts (SweepNextBatch B bound t) = Some (sw, 0, 0)"
  shows "\<exists>tx' t1 t' d'.
           sweepFn bound (buckets d) t (0, 0, 0) = Inr (Some NoDeletes, tx', t1, (sw, 0, 0)) \<and>
           SweepNextBatch B bound t = Inr ((sw, 0, 0), t') \<and>
           db t' = Some d' \<and> buckets d' = buckets d \<and> txlog d' = txlog d @ [RolledBack]"
proof -
  from assms(3) obtain t' where r: "SweepNextBatch B bound t = Inr ((sw, 0, 0), t')"
    by (auto simp: batchCounts_def split: sum.splits)
  from SweepNextBatch_cases [OF r] assms(1,2) obtain err tx' t1 where
    fn: "sweepFn bound (buckets d) t (0, 0, 0) = Inr (err, tx', t1, (sw, 0, 0))"
    and t': "t' = emitted B (stats (afterTx B err tx' d)) (t1\<lparr>db := Some (afterTx B err tx' d)\<rparr>)"
    by auto
  from sweepFn_cases [OF fn] have e: "err = Some NoDeletes"
    by (auto simp: sweepErr_def)
  have "db t' = Some (afterTx B err tx' d)" by (simp add: t')
  moreover have "buckets (afterTx B err tx' d) = buckets d" by (simp add: e)
  moreover have "txlog (afterTx B err tx' d) = txlog d @ [RolledBack]" by (simp add: e)
  ultimately show ?thesis using fn r e by blast
qed

theorem sweep_no_deletions_rolls_back_witness:
  "db exTable0 = Some exDB0 \<and> dbOpened exDB0 \<and>
   batchCounts (SweepNextBatch exBolt exBound exTable0) = Some (1000, 0, 0) \<and>
   (\<exists>t' d'. SweepNextBatch exBolt exBound exTable0 = Inr ((1000, 0, 0), t') \<and>
      db t' = Some d' \<and> buckets d' = buckets exDB0 \<and> txlog d' = [RolledBack])"
proof -
  from sweep_no_deletions_rolls_back [OF ex0_db(1,2) ex0_counts]
  have "\<exists>t' d'. SweepNextBatch exBolt exBound exTable0 = Inr ((1000, 0, 0), t') \<and>
      db t' = Some d' \<and> buckets d' = buckets exDB0 \<and> txlog d' = txlog exDB0 @ [RolledBack]"
    by blast
  moreover have "txlog exDB0 = []" by (simp add: exDB0_def)
  ultimately show ?thesis using ex0_db ex0_counts by simp
qed

text \<open>
  C3, as amended. A batch on an open table emits, after its rollovers,
  \<^verbatim>\<open>expiration.sweep\<close> once, whether it commits or aborts; then
  \<^verbatim>\<open>expiration.events\<close> exactly when it deleted an event and
  \<^verbatim>\<open>expiration.objects\<close> exactly when it deleted an object; then the storage
  statistics. It aborts exactly when both counts are zero, so an aborted batch emits neither
  of the last two.
\<close>

theorem sweep_counters:
  assumes "db t = Some d" and "dbOpened d"
    and "SweepNextBatch B bound t = Inr ((sw, ev, ob), t')"
  shows "\<exists>n d'. db t' = Some d' \<and>
           txlog d' = txlog d @ [if ev = 0 \<and> ob = 0 then RolledBack else Committed] \<and>
           statsd t' =
             statsd t @ replicate n (rolloverMetric t) @
             [Count ''expiration.sweep'' 1 (tagsOf t)] @
             (if 0 < ev then [Count ''expiration.events'' ev (tagsOf t)] else []) @
             (if 0 < ob then [Count ''expiration.objects'' ob (tagsOf t)] else []) @
             ddStatsMetrics (statsSub B (stats d') (boltStats t)) (tagsOf t) \<and>
           0 \<le> ev \<and> 0 \<le> ob"
  using SweepNextBatch_cases [OF assms(3)] assms(1,2)
proof (elim disjE exE conjE)
  fix d0 err tx' t1
  assume d0: "db t = Some d0"
    and fn: "sweepFn bound (buckets d0) t (0, 0, 0) = Inr (err, tx', t1, (sw, ev, ob))"
    and t': "t' = emitted B (stats (afterTx B err tx' d0)) (t1\<lparr>db := Some (afterTx B err tx' d0)\<rparr>)"
  from d0 assms(1) have dd: "d0 = d" by simp
  from sweepFn_cases [OF fn] obtain s where
    lp: "sweepLoop bound 0 (sweepInit (buckets d0) t) = Inr (sw, s)"
    and e: "err = sweepErr s" and t1: "t1 = sweepEmit s"
    and ev: "ev = events s" and ob: "ob = objects s"
    by auto
  from sweepLoop_statsd [OF lp] obtain n where
    tg: "tagsOf (tab s) = tagsOf t"
    and st: "statsd (tab s) = statsd t @ replicate n (rolloverMetric t)" by auto
  from sweepLoop_keeps [OF lp] have
    bs: "boltStats (tab s) = boltStats t" and nn: "0 \<le> events s" "0 \<le> objects s" by simp_all
  let ?d' = "afterTx B err tx' d"
  have 1: "db t' = Some ?d'" by (simp add: t' dd)
  have 2: "txlog ?d' = txlog d @ [if ev = 0 \<and> ob = 0 then RolledBack else Committed]"
    by (simp add: e sweepErr_def ev ob)
  have 3: "statsd t' =
             statsd t @ replicate n (rolloverMetric t) @
             [Count ''expiration.sweep'' 1 (tagsOf t)] @
             (if 0 < ev then [Count ''expiration.events'' ev (tagsOf t)] else []) @
             (if 0 < ob then [Count ''expiration.objects'' ob (tagsOf t)] else []) @
             ddStatsMetrics (statsSub B (stats ?d') (boltStats t)) (tagsOf t)"
    by (simp add: t' t1 dd st tg bs sweepCounters_def ev ob)
  from 1 2 3 nn ev ob show ?thesis by blast
qed auto

theorem sweep_counters_witness:
  "db exTable1 = Some exDB1 \<and> dbOpened exDB1 \<and>
   batchCounts (SweepNextBatch exBolt exBound exTable1) = Some (1, 1001, 1) \<and>
   batchTxlog (SweepNextBatch exBolt exBound exTable1) = [Committed] \<and>
   (\<exists>n rest. batchSink (SweepNextBatch exBolt exBound exTable1) =
      replicate n (Count ''expiration.rollover'' 1 [''table:users'']) @
      [Count ''expiration.sweep'' 1 [''table:users''],
       Count ''expiration.events'' 1001 [''table:users''],
       Count ''expiration.objects'' 1 [''table:users'']] @ rest)"
proof -
  from ex1_batch obtain t' where r: "SweepNextBatch exBolt exBound exTable1 = Inr ((1, 1001, 1), t')"
    by blast
  have tg: "tagsOf exTable1 = [''table:users'']"
    by (simp add: tagsOf_def ddTags_def exTable1_def)
  from sweep_counters [OF ex1_db(1,2) r] obtain n d' where
    d': "db t' = Some d'" and lg: "txlog d' = txlog exDB1 @ [Committed]"
    and sk: "statsd t' = statsd exTable1 @ replicate n (rolloverMetric exTable1) @
             [Count ''expiration.sweep'' 1 (tagsOf exTable1)] @
             [Count ''expiration.events'' 1001 (tagsOf exTable1)] @
             [Count ''expiration.objects'' 1 (tagsOf exTable1)] @
             ddStatsMetrics (statsSub exBolt (stats d') (boltStats exTable1)) (tagsOf exTable1)"
    by auto
  have "batchTxlog (SweepNextBatch exBolt exBound exTable1) = [Committed]"
    using d' lg by (simp add: r batchTxlog_def batchTable_def exDB1_def)
  moreover have "batchSink (SweepNextBatch exBolt exBound exTable1) =
      replicate n (Count ''expiration.rollover'' 1 [''table:users'']) @
      [Count ''expiration.sweep'' 1 [''table:users''],
       Count ''expiration.events'' 1001 [''table:users''],
       Count ''expiration.objects'' 1 [''table:users'']] @
      ddStatsMetrics (statsSub exBolt (stats d') (boltStats exTable1)) [''table:users'']"
    using sk by (simp add: r batchSink_def batchTable_def tg rolloverMetric_def) (simp add: exTable1_def)
  ultimately show ?thesis using ex1_db ex1_counts by blast
qed

text \<open>
  C3 as stated fails: the batch over two empty shards aborts and has emitted
  \<^verbatim>\<open>expiration.sweep\<close>.
\<close>

theorem sweep_counter_on_abort:
  "batchCounts (SweepNextBatch exBolt exBound exTable0) = Some (1000, 0, 0) \<and>
   batchTxlog (SweepNextBatch exBolt exBound exTable0) = [RolledBack] \<and>
   Count ''expiration.sweep'' 1 [''table:users''] \<in> set (batchSink (SweepNextBatch exBolt exBound exTable0))"
proof -
  have "batchTxlog (SweepNextBatch exBolt exBound exTable0) = [RolledBack]"
    by (simp add: ex0_batch batchTxlog_def batchTable_def) (simp add: exDB0_def)
  moreover have "Count ''expiration.sweep'' 1 [''table:users'']
      \<in> set (batchSink (SweepNextBatch exBolt exBound exTable0))"
    by (simp add: ex0_batch batchSink_def batchTable_def sweepCounters_def ex0_tags)
  ultimately show ?thesis using ex0_counts by simp
qed

text \<open>
  C4. On a created, open table: an iteration whose shard cursor is exhausted moves
  \<open>currentShard\<close> to \<open>(currentShard + 1) mod shardCount\<close>, resets
  \<open>currentObject\<close>, emits one \<^verbatim>\<open>expiration.rollover\<close>, deletes nothing,
  and the loop goes on with \<open>swept + 1\<close>; every batch returns and leaves the table
  well-formed, \<open>currentShard\<close> inside \<open>[0, shardCount)\<close>; and a batch over
  empty shards returns \<open>(SweepBatchSize, 0, 0)\<close>.
\<close>

theorem rollover_progress:
  "(wfSweep s \<and> exhausted s \<longrightarrow>
      (\<exists>s'. sweepStep bound s = Inr s' \<and>
         currentShard (tab s') = (currentShard (tab s) + 1) mod shardCount (tab s) \<and>
         currentObject (tab s') = None \<and>
         statsd (tab s') = statsd (tab s) @ [Count ''expiration.rollover'' 1 (tagsOf (tab s))] \<and>
         events s' = events s \<and> objects s' = objects s \<and> txn s' = txn s \<and> wfSweep s' \<and>
         (\<forall>sw. sw < SweepBatchSize \<and> events s < SweepBatchSize \<longrightarrow>
            sweepLoop bound sw s = sweepLoop bound (sw + 1) s'))) \<and>
   (wfTable t \<longrightarrow>
      (\<exists>r t'. SweepNextBatch B bound t = Inr (r, t') \<and> wfTable t' \<and> shardCount t' = shardCount t)) \<and>
   (wfTable t \<and> (\<forall>d. db t = Some d \<longrightarrow> shardsEmpty (shardCount t) (buckets d)) \<longrightarrow>
      (\<exists>t'. SweepNextBatch B bound t = Inr ((SweepBatchSize, 0, 0), t')))"
proof (intro conjI impI)
  assume a: "wfSweep s \<and> exhausted s"
  then obtain sh where sh: "txn s (sb s) = Some sh" and nx: "nextObject (tab s) sh = None"
    by (auto simp: exhausted_def split: option.splits)
  let ?n = "shardCount (tab s)" and ?c = "currentShard (tab s)"
  from a have n: "0 < ?n" and c: "0 \<le> ?c" "?c < ?n" and ex: "shardsExist ?n (txn s)"
    by (simp_all add: wfSweep_def)
  have r: "0 \<le> goRem (?c + 1) ?n" "goRem (?c + 1) ?n < ?n" "goRem (?c + 1) ?n = (?c + 1) mod ?n"
    using goRem_range [of "?c + 1" ?n] c n by simp_all
  from ex r have "txn s (shardDBName (goRem (?c + 1) ?n)) \<noteq> None"
    by (simp add: shardsExist_def)
  with n have st: "sweepStep bound s = Inr (rolled s)"
    by (intro sweepStep_rollover [OF sh nx]) simp_all
  have "currentShard (tab (rolled s)) = (?c + 1) mod ?n" using r by simp
  moreover have "statsd (tab (rolled s)) = statsd (tab s) @ [Count ''expiration.rollover'' 1 (tagsOf (tab s))]"
    by (simp add: rolloverMetric_def)
  moreover have "wfSweep (rolled s)" using a by (simp add: wfSweep_rolled)
  moreover have "\<forall>sw. sw < SweepBatchSize \<and> events s < SweepBatchSize \<longrightarrow>
            sweepLoop bound sw s = sweepLoop bound (sw + 1) (rolled s)"
    using st by (simp add: sweepLoop_step)
  ultimately show "\<exists>s'. sweepStep bound s = Inr s' \<and>
         currentShard (tab s') = (currentShard (tab s) + 1) mod shardCount (tab s) \<and>
         currentObject (tab s') = None \<and>
         statsd (tab s') = statsd (tab s) @ [Count ''expiration.rollover'' 1 (tagsOf (tab s))] \<and>
         events s' = events s \<and> objects s' = objects s \<and> txn s' = txn s \<and> wfSweep s' \<and>
         (\<forall>sw. sw < SweepBatchSize \<and> events s < SweepBatchSize \<longrightarrow>
            sweepLoop bound sw s = sweepLoop bound (sw + 1) s')"
    using st by (intro exI [of _ "rolled s"]) simp
next
  assume wf: "wfTable t"
  then obtain d where d: "db t = Some d" and op: "dbOpened d"
    and ex: "shardsExist (shardCount t) (buckets d)"
    by (auto simp: wfTable_def)
  from SweepNextBatch_wf [OF wf d, of bound B] obtain sw s where
    wfs: "wfSweep s" and n: "shardCount (tab s) = shardCount t"
    and b: "SweepNextBatch B bound t =
             Inr ((sw, events s, objects s),
                  emitted B (stats (afterTx B (sweepErr s) (txn s) d))
                    ((sweepEmit s)\<lparr>db := Some (afterTx B (sweepErr s) (txn s) d)\<rparr>))"
    by blast
  let ?t' = "emitted B (stats (afterTx B (sweepErr s) (txn s) d))
                    ((sweepEmit s)\<lparr>db := Some (afterTx B (sweepErr s) (txn s) d)\<rparr>)"
  from wfs n ex op have "wfTable ?t'"
    by (simp add: wfTable_def wfSweep_def)
  moreover have "shardCount ?t' = shardCount t" using n by simp
  ultimately show "\<exists>r t'. SweepNextBatch B bound t = Inr (r, t') \<and> wfTable t' \<and> shardCount t' = shardCount t"
    using b by blast
next
  assume a: "wfTable t \<and> (\<forall>d. db t = Some d \<longrightarrow> shardsEmpty (shardCount t) (buckets d))"
  then obtain d where d: "db t = Some d" by (auto simp: wfTable_def)
  with a have em: "shardsEmpty (shardCount t) (buckets d)" by simp
  from a have wf: "wfTable t" by simp
  from SweepNextBatch_empty [OF wf d em, of B bound]
  show "\<exists>t'. SweepNextBatch B bound t = Inr ((SweepBatchSize, 0, 0), t')" by blast
qed

theorem rollover_progress_witness:
  "wfSweep (sweepInit (buckets exDB0) exTable0) \<and> exhausted (sweepInit (buckets exDB0) exTable0) \<and>
   wfTable exTable0 \<and> shardsEmpty (shardCount exTable0) (buckets exDB0) \<and>
   (\<exists>s'. sweepStep exBound (sweepInit (buckets exDB0) exTable0) = Inr s' \<and>
      currentShard (tab s') = 1 \<and> currentObject (tab s') = None \<and>
      statsd (tab s') = [Count ''expiration.rollover'' 1 [''table:users'']] \<and> wfSweep s') \<and>
   (\<exists>r t'. SweepNextBatch exBolt exBound exTable0 = Inr (r, t') \<and> wfTable t' \<and> shardCount t' = 2) \<and>
   (\<exists>t'. SweepNextBatch exBolt exBound exTable0 = Inr ((1000, 0, 0), t'))"
proof -
  let ?ini = "sweepInit (buckets exDB0) exTable0"
  have wfs: "wfSweep ?ini" by (rule wfSweep_init [OF ex0_wf ex0_db(1)])
  have exh: "exhausted ?ini"
    by (simp add: exhausted_def exTable0_def shardDBName_0) (simp add: exDB0_def)
  have em: "\<forall>d. db exTable0 = Some d \<longrightarrow> shardsEmpty (shardCount exTable0) (buckets d)"
    using ex0_empty by (simp add: ex0_db)
  note th = rollover_progress [of ?ini exBound exTable0 exBolt]
  from th wfs exh have 1: "\<exists>s'. sweepStep exBound ?ini = Inr s' \<and>
         currentShard (tab s') = (currentShard (tab ?ini) + 1) mod shardCount (tab ?ini) \<and>
         currentObject (tab s') = None \<and>
         statsd (tab s') = statsd (tab ?ini) @ [Count ''expiration.rollover'' 1 (tagsOf (tab ?ini))] \<and>
         wfSweep s'"
    by blast
  have c: "(currentShard exTable0 + 1) mod shardCount exTable0 = 1" "statsd exTable0 = []"
    by (simp_all add: exTable0_def)
  from 1 have 1: "\<exists>s'. sweepStep exBound ?ini = Inr s' \<and>
      currentShard (tab s') = 1 \<and> currentObject (tab s') = None \<and>
      statsd (tab s') = [Count ''expiration.rollover'' 1 [''table:users'']] \<and> wfSweep s'"
    by (simp add: c ex0_tags)
  from th ex0_wf have 2: "\<exists>r t'. SweepNextBatch exBolt exBound exTable0 = Inr (r, t') \<and> wfTable t' \<and>
      shardCount t' = shardCount exTable0" by blast
  from th ex0_wf em have 3: "\<exists>t'. SweepNextBatch exBolt exBound exTable0 = Inr ((SweepBatchSize, 0, 0), t')"
    by blast
  from wfs exh ex0_wf ex0_empty 1 2 3 show ?thesis
    by (simp add: ex0_db SweepBatchSize_def)
qed

text \<open>
  C10. On a table that is not open \<^verbatim>\<open>SweepNextBatch\<close> returns
  \<open>(0, 0, 0)\<close>, without a panic, and the table is as it was.
\<close>

theorem sweep_not_open:
  "\<not> opened t \<Longrightarrow> SweepNextBatch B bound t = Inr ((0, 0, 0), t)"
  by (simp add: SweepNextBatch_def)

theorem sweep_not_open_witness:
  "\<not> opened (exTable0\<lparr>db := None\<rparr>) \<and>
   SweepNextBatch exBolt exBound (exTable0\<lparr>db := None\<rparr>) = Inr ((0, 0, 0), exTable0\<lparr>db := None\<rparr>)"
proof -
  have h: "\<not> opened (exTable0\<lparr>db := None\<rparr>)" by (simp add: opened_def)
  from sweep_not_open [OF h] h show ?thesis by simp
qed

subsection \<open>Proofs: The transaction wrapper\<close>

text \<open>
  C8. Once the store's transaction is over, committed or rolled back with the closure's
  error (or refused by a closed store), \<^verbatim>\<open>Update\<close> returns that error and
  has handed to the sink, tagged with the table's tags, the twenty-one metrics of
  \<open>st\<close>, the difference between the store's statistics of now and the snapshot
  cached before; and the cache holds the statistics of now. (The gauge
  \<^verbatim>\<open>bolt.pages.freelist.inuse\<close> carries \<^verbatim>\<open>FreeAlloc\<close>, as in
  the source.)
\<close>

theorem update_emits_stats:
  assumes "db t = Some d"
  shows "(dbOpened d \<and> fn (buckets d) t r = Inr (err, tx', t1, r') \<longrightarrow>
            (\<exists>t2 d2 st tags. Update B fn t r = Inr (err, t2, r') \<and> db t2 = Some d2 \<and>
               txlog d2 = txlog d @ [if err = None then Committed else RolledBack] \<and>
               stats d2 = statsAfterTx B (if err = None then Committed else RolledBack) (stats d) \<and>
               st = statsSub B (stats d2) (boltStats t1) \<and>
               tags = (case ddTagsCache t1 of Some c \<Rightarrow> c | None \<Rightarrow> [''table:'' @ name t1]) \<and>
               statsd t2 = statsd t1 @
                 [Gauge ''bolt.pages.free'' (FreePageN st) tags,
                  Gauge ''bolt.pages.pending'' (PendingPageN st) tags,
                  Gauge ''bolt.pages.free.alloc'' (FreeAlloc st) tags,
                  Gauge ''bolt.pages.freelist.inuse'' (FreeAlloc st) tags,
                  Count ''bolt.txn.total'' (TxN st) tags,
                  Gauge ''bolt.txn.open'' (OpenTxN st) tags,
                  Count ''bolt.txn.page.count'' (PageCount (TxStats st)) tags,
                  Count ''bolt.txn.page.alloc'' (PageAlloc (TxStats st)) tags,
                  Count ''bolt.txn.cursor.count'' (CursorCount (TxStats st)) tags,
                  Count ''bolt.txn.node.count'' (NodeCount (TxStats st)) tags,
                  Count ''bolt.txn.node.deref'' (NodeDeref (TxStats st)) tags,
                  Count ''bolt.txn.node.rebalance.count'' (Rebalance (TxStats st)) tags,
                  Count ''bolt.txn.node.rebalance.time'' (RebalanceTime (TxStats st)) tags,
                  Histogram ''bolt.txn.node.rebalance.period''
                    (RebalanceTime (TxStats st)) (Rebalance (TxStats st)) tags,
                  Count ''bolt.txn.node.split'' (Split (TxStats st)) tags,
                  Count ''bolt.txn.node.spill.count'' (Spill (TxStats st)) tags,
                  Count ''bolt.txn.node.spill.time'' (SpillTime (TxStats st)) tags,
                  Histogram ''bolt.txn.node.spill.period''
                    (SpillTime (TxStats st)) (Spill (TxStats st)) tags,
                  Count ''bolt.txn.write.count'' (Write (TxStats st)) tags,
                  Count ''bolt.txn.write.time'' (WriteTime (TxStats st)) tags,
                  Histogram ''bolt.txn.write.period''
                    (WriteTime (TxStats st)) (Write (TxStats st)) tags] \<and>
               boltStats t2 = Some (stats d2))) \<and>
         (\<not> dbOpened d \<longrightarrow>
            (\<exists>t2 st tags. Update B fn t r = Inr (Some ErrDatabaseNotOpen, t2, r) \<and> db t2 = Some d \<and>
               st = statsSub B (stats d) (boltStats t) \<and>
               tags = (case ddTagsCache t of Some c \<Rightarrow> c | None \<Rightarrow> [''table:'' @ name t]) \<and>
               statsd t2 = statsd t @
                 [Gauge ''bolt.pages.free'' (FreePageN st) tags,
                  Gauge ''bolt.pages.pending'' (PendingPageN st) tags,
                  Gauge ''bolt.pages.free.alloc'' (FreeAlloc st) tags,
                  Gauge ''bolt.pages.freelist.inuse'' (FreeAlloc st) tags,
                  Count ''bolt.txn.total'' (TxN st) tags,
                  Gauge ''bolt.txn.open'' (OpenTxN st) tags,
                  Count ''bolt.txn.page.count'' (PageCount (TxStats st)) tags,
                  Count ''bolt.txn.page.alloc'' (PageAlloc (TxStats st)) tags,
                  Count ''bolt.txn.cursor.count'' (CursorCount (TxStats st)) tags,
                  Count ''bolt.txn.node.count'' (NodeCount (TxStats st)) tags,
                  Count ''bolt.txn.node.deref'' (NodeDeref (TxStats st)) tags,
                  Count ''bolt.txn.node.rebalance.count'' (Rebalance (TxStats st)) tags,
                  Count ''bolt.txn.node.rebalance.time'' (RebalanceTime (TxStats st)) tags,
                  Histogram ''bolt.txn.node.rebalance.period''
                    (RebalanceTime (TxStats st)) (Rebalance (TxStats st)) tags,
                  Count ''bolt.txn.node.split'' (Split (TxStats st)) tags,
                  Count ''bolt.txn.node.spill.count'' (Spill (TxStats st)) tags,
                  Count ''bolt.txn.node.spill.time'' (SpillTime (TxStats st)) tags,
                  Histogram ''bolt.txn.node.spill.period''
                    (SpillTime (TxStats st)) (Spill (TxStats st)) tags,
                  Count ''bolt.txn.write.count'' (Write (TxStats st)) tags,
                  Count ''bolt.txn.write.time'' (WriteTime (TxStats st)) tags,
                  Histogram ''bolt.txn.write.period''
                    (WriteTime (TxStats st)) (Write (TxStats st)) tags] \<and>
               boltStats t2 = Some (stats d)))"
proof (intro conjI impI)
  assume a: "dbOpened d \<and> fn (buckets d) t r = Inr (err, tx', t1, r')"
  let ?d2 = "afterTx B err tx' d"
  let ?t2 = "emitted B (stats ?d2) (t1\<lparr>db := Some ?d2\<rparr>)"
  from a have op: "dbOpened d" and f: "fn (buckets d) t r = Inr (err, tx', t1, r')" by simp_all
  have u: "Update B fn t r = Inr (err, ?t2, r')"
    by (rule Update_open [where fn = fn, OF assms op f])
  have 1: "db ?t2 = Some ?d2" by simp
  have 2: "txlog ?d2 = txlog d @ [if err = None then Committed else RolledBack]" by simp
  have 5: "stats ?d2 = statsAfterTx B (if err = None then Committed else RolledBack) (stats d)"
    by simp
  have 3: "statsd ?t2 = statsd t1 @ ddStatsMetrics (statsSub B (stats ?d2) (boltStats t1)) (tagsOf t1)"
    by simp
  have 4: "boltStats ?t2 = Some (stats ?d2)" by simp
  show "\<exists>t2 d2 st tags. Update B fn t r = Inr (err, t2, r') \<and> db t2 = Some d2 \<and>
               txlog d2 = txlog d @ [if err = None then Committed else RolledBack] \<and>
               stats d2 = statsAfterTx B (if err = None then Committed else RolledBack) (stats d) \<and>
               st = statsSub B (stats d2) (boltStats t1) \<and>
               tags = (case ddTagsCache t1 of Some c \<Rightarrow> c | None \<Rightarrow> [''table:'' @ name t1]) \<and>
               statsd t2 = statsd t1 @
                 [Gauge ''bolt.pages.free'' (FreePageN st) tags,
                  Gauge ''bolt.pages.pending'' (PendingPageN st) tags,
                  Gauge ''bolt.pages.free.alloc'' (FreeAlloc st) tags,
                  Gauge ''bolt.pages.freelist.inuse'' (FreeAlloc st) tags,
                  Count ''bolt.txn.total'' (TxN st) tags,
                  Gauge ''bolt.txn.open'' (OpenTxN st) tags,
                  Count ''bolt.txn.page.count'' (PageCount (TxStats st)) tags,
                  Count ''bolt.txn.page.alloc'' (PageAlloc (TxStats st)) tags,
                  Count ''bolt.txn.cursor.count'' (CursorCount (TxStats st)) tags,
                  Count ''bolt.txn.node.count'' (NodeCount (TxStats st)) tags,
                  Count ''bolt.txn.node.deref'' (NodeDeref (TxStats st)) tags,
                  Count ''bolt.txn.node.rebalance.count'' (Rebalance (TxStats st)) tags,
                  Count ''bolt.txn.node.rebalance.time'' (RebalanceTime (TxStats st)) tags,
                  Histogram ''bolt.txn.node.rebalance.period''
                    (RebalanceTime (TxStats st)) (Rebalance (TxStats st)) tags,
                  Count ''bolt.txn.node.split'' (Split (TxStats st)) tags,
                  Count ''bolt.txn.node.spill.count'' (Spill (TxStats st)) tags,
                  Count ''bolt.txn.node.spill.time'' (SpillTime (TxStats st)) tags,
                  Histogram ''bolt.txn.node.spill.period''
                    (SpillTime (TxStats st)) (Spill (TxStats st)) tags,
                  Count ''bolt.txn.write.count'' (Write (TxStats st)) tags,
                  Count ''bolt.txn.write.time'' (WriteTime (TxStats st)) tags,
                  Histogram ''bolt.txn.write.period''
                    (WriteTime (TxStats st)) (Write (TxStats st)) tags] \<and>
               boltStats t2 = Some (stats d2)"
    apply (rule exI [of _ ?t2])
    apply (rule exI [of _ ?d2])
    apply (rule exI [of _ "statsSub B (stats ?d2) (boltStats t1)"])
    apply (rule exI [of _ "tagsOf t1"])
    apply (simp only: u 1 2 3 4 5 [symmetric] ddStatsMetrics_def tagsOf_case [symmetric])
    done
next
  assume c: "\<not> dbOpened d"
  let ?t2 = "emitted B (stats d) t"
  have u: "Update B fn t r = Inr (Some ErrDatabaseNotOpen, ?t2, r)"
    by (rule Update_closed [OF assms c])
  have 1: "db ?t2 = Some d" using assms by simp
  have 3: "statsd ?t2 = statsd t @ ddStatsMetrics (statsSub B (stats d) (boltStats t)) (tagsOf t)"
    by simp
  have 4: "boltStats ?t2 = Some (stats d)" by simp
  show "\<exists>t2 st tags. Update B fn t r = Inr (Some ErrDatabaseNotOpen, t2, r) \<and> db t2 = Some d \<and>
               st = statsSub B (stats d) (boltStats t) \<and>
               tags = (case ddTagsCache t of Some c \<Rightarrow> c | None \<Rightarrow> [''table:'' @ name t]) \<and>
               statsd t2 = statsd t @
                 [Gauge ''bolt.pages.free'' (FreePageN st) tags,
                  Gauge ''bolt.pages.pending'' (PendingPageN st) tags,
                  Gauge ''bolt.pages.free.alloc'' (FreeAlloc st) tags,
                  Gauge ''bolt.pages.freelist.inuse'' (FreeAlloc st) tags,
                  Count ''bolt.txn.total'' (TxN st) tags,
                  Gauge ''bolt.txn.open'' (OpenTxN st) tags,
                  Count ''bolt.txn.page.count'' (PageCount (TxStats st)) tags,
                  Count ''bolt.txn.page.alloc'' (PageAlloc (TxStats st)) tags,
                  Count ''bolt.txn.cursor.count'' (CursorCount (TxStats st)) tags,
                  Count ''bolt.txn.node.count'' (NodeCount (TxStats st)) tags,
                  Count ''bolt.txn.node.deref'' (NodeDeref (TxStats st)) tags,
                  Count ''bolt.txn.node.rebalance.count'' (Rebalance (TxStats st)) tags,
                  Count ''bolt.txn.node.rebalance.time'' (RebalanceTime (TxStats st)) tags,
                  Histogram ''bolt.txn.node.rebalance.period''
                    (RebalanceTime (TxStats st)) (Rebalance (TxStats st)) tags,
                  Count ''bolt.txn.node.split'' (Split (TxStats st)) tags,
                  Count ''bolt.txn.node.spill.count'' (Spill (TxStats st)) tags,
                  Count ''bolt.txn.node.spill.time'' (SpillTime (TxStats st)) tags,
                  Histogram ''bolt.txn.node.spill.period''
                    (SpillTime (TxStats st)) (Spill (TxStats st)) tags,
                  Count ''bolt.txn.write.count'' (Write (TxStats st)) tags,
                  Count ''bolt.txn.write.time'' (WriteTime (TxStats st)) tags,
                  Histogram ''bolt.txn.write.period''
                    (WriteTime (TxStats st)) (Write (TxStats st)) tags] \<and>
               boltStats t2 = Some (stats d)"
    apply (rule exI [of _ ?t2])
    apply (rule exI [of _ "statsSub B (stats d) (boltStats t)"])
    apply (rule exI [of _ "tagsOf t"])
    apply (simp only: u 1 3 4 ddStatsMetrics_def tagsOf_case [symmetric])
    done
qed

theorem update_emits_stats_witness:
  "db exTable0 = Some exDB0 \<and> dbOpened exDB0 \<and>
   exFail (buckets exDB0) exTable0 () = Inr (Some (TxError ''boom''), buckets exDB0, exTable0, ()) \<and>
   (\<exists>t2 d2. Update exBolt exFail exTable0 () = Inr (Some (TxError ''boom''), t2, ()) \<and>
      db t2 = Some d2 \<and> txlog d2 = [RolledBack] \<and>
      statsd t2 =
        [Gauge ''bolt.pages.free'' 0 [''table:users''],
         Gauge ''bolt.pages.pending'' 0 [''table:users''],
         Gauge ''bolt.pages.free.alloc'' 0 [''table:users''],
         Gauge ''bolt.pages.freelist.inuse'' 0 [''table:users''],
         Count ''bolt.txn.total'' 1 [''table:users''],
         Gauge ''bolt.txn.open'' 0 [''table:users''],
         Count ''bolt.txn.page.count'' 0 [''table:users''],
         Count ''bolt.txn.page.alloc'' 0 [''table:users''],
         Count ''bolt.txn.cursor.count'' 0 [''table:users''],
         Count ''bolt.txn.node.count'' 0 [''table:users''],
         Count ''bolt.txn.node.deref'' 0 [''table:users''],
         Count ''bolt.txn.node.rebalance.count'' 0 [''table:users''],
         Count ''bolt.txn.node.rebalance.time'' 0 [''table:users''],
         Histogram ''bolt.txn.node.rebalance.period'' 0 0 [''table:users''],
         Count ''bolt.txn.node.split'' 0 [''table:users''],
         Count ''bolt.txn.node.spill.count'' 0 [''table:users''],
         Count ''bolt.txn.node.spill.time'' 0 [''table:users''],
         Histogram ''bolt.txn.node.spill.period'' 0 0 [''table:users''],
         Count ''bolt.txn.write.count'' 0 [''table:users''],
         Count ''bolt.txn.write.time'' 0 [''table:users''],
         Histogram ''bolt.txn.write.period'' 0 0 [''table:users'']] \<and>
      boltStats t2 = Some (stats d2)) \<and>
   db exShut = Some (exDB0\<lparr>dbOpened := False\<rparr>) \<and>
   \<not> dbOpened (exDB0\<lparr>dbOpened := False\<rparr>) \<and>
   (\<exists>t2. Update exBolt exFail exShut () = Inr (Some ErrDatabaseNotOpen, t2, ()) \<and>
      statsd t2 =
        [Gauge ''bolt.pages.free'' 0 [''table:users''],
         Gauge ''bolt.pages.pending'' 0 [''table:users''],
         Gauge ''bolt.pages.free.alloc'' 0 [''table:users''],
         Gauge ''bolt.pages.freelist.inuse'' 0 [''table:users''],
         Count ''bolt.txn.total'' 0 [''table:users''],
         Gauge ''bolt.txn.open'' 0 [''table:users''],
         Count ''bolt.txn.page.count'' 0 [''table:users''],
         Count ''bolt.txn.page.alloc'' 0 [''table:users''],
         Count ''bolt.txn.cursor.count'' 0 [''table:users''],
         Count ''bolt.txn.node.count'' 0 [''table:users''],
         Count ''bolt.txn.node.deref'' 0 [''table:users''],
         Count ''bolt.txn.node.rebalance.count'' 0 [''table:users''],
         Count ''bolt.txn.node.rebalance.time'' 0 [''table:users''],
         Histogram ''bolt.txn.node.rebalance.period'' 0 0 [''table:users''],
         Count ''bolt.txn.node.split'' 0 [''table:users''],
         Count ''bolt.txn.node.spill.count'' 0 [''table:users''],
         Count ''bolt.txn.node.spill.time'' 0 [''table:users''],
         Histogram ''bolt.txn.node.spill.period'' 0 0 [''table:users''],
         Count ''bolt.txn.write.count'' 0 [''table:users''],
         Count ''bolt.txn.write.time'' 0 [''table:users''],
         Histogram ''bolt.txn.write.period'' 0 0 [''table:users'']] \<and>
      boltStats t2 = Some zeroStats)"
proof -
  have f: "exFail (buckets exDB0) exTable0 () = Inr (Some (TxError ''boom''), buckets exDB0, exTable0, ())"
    by (simp add: exFail_def)
  have e: "txlog exDB0 = []" "statsd exTable0 = []" "boltStats exTable0 = Some zeroStats"
    "stats exDB0 = zeroStats" "ddTagsCache exTable0 = None" "name exTable0 = ''users''"
    by (simp_all add: exDB0_def exTable0_def)
  note th = update_emits_stats [where fn = exFail and B = exBolt and r = "()"]
  from th [OF ex0_db(1), of "Some (TxError ''boom'')" "buckets exDB0" exTable0 "()"] f ex0_db(2)
  obtain t2 d2 st tags where
    u: "Update exBolt exFail exTable0 () = Inr (Some (TxError ''boom''), t2, ())"
    and d2: "db t2 = Some d2" and lg: "txlog d2 = txlog exDB0 @ [RolledBack]"
    and s2: "stats d2 = statsAfterTx exBolt RolledBack (stats exDB0)"
    and st: "st = statsSub exBolt (stats d2) (boltStats exTable0)"
    and tg: "tags = (case ddTagsCache exTable0 of Some c \<Rightarrow> c | None \<Rightarrow> [''table:'' @ name exTable0])"
    and sk: "statsd t2 = statsd exTable0 @
                 [Gauge ''bolt.pages.free'' (FreePageN st) tags,
                  Gauge ''bolt.pages.pending'' (PendingPageN st) tags,
                  Gauge ''bolt.pages.free.alloc'' (FreeAlloc st) tags,
                  Gauge ''bolt.pages.freelist.inuse'' (FreeAlloc st) tags,
                  Count ''bolt.txn.total'' (TxN st) tags,
                  Gauge ''bolt.txn.open'' (OpenTxN st) tags,
                  Count ''bolt.txn.page.count'' (PageCount (TxStats st)) tags,
                  Count ''bolt.txn.page.alloc'' (PageAlloc (TxStats st)) tags,
                  Count ''bolt.txn.cursor.count'' (CursorCount (TxStats st)) tags,
                  Count ''bolt.txn.node.count'' (NodeCount (TxStats st)) tags,
                  Count ''bolt.txn.node.deref'' (NodeDeref (TxStats st)) tags,
                  Count ''bolt.txn.node.rebalance.count'' (Rebalance (TxStats st)) tags,
                  Count ''bolt.txn.node.rebalance.time'' (RebalanceTime (TxStats st)) tags,
                  Histogram ''bolt.txn.node.rebalance.period''
                    (RebalanceTime (TxStats st)) (Rebalance (TxStats st)) tags,
                  Count ''bolt.txn.node.split'' (Split (TxStats st)) tags,
                  Count ''bolt.txn.node.spill.count'' (Spill (TxStats st)) tags,
                  Count ''bolt.txn.node.spill.time'' (SpillTime (TxStats st)) tags,
                  Histogram ''bolt.txn.node.spill.period''
                    (SpillTime (TxStats st)) (Spill (TxStats st)) tags,
                  Count ''bolt.txn.write.count'' (Write (TxStats st)) tags,
                  Count ''bolt.txn.write.time'' (WriteTime (TxStats st)) tags,
                  Histogram ''bolt.txn.write.period''
                    (WriteTime (TxStats st)) (Write (TxStats st)) tags]"
    and bs: "boltStats t2 = Some (stats d2)"
    by auto
  have tg': "tags = [''table:users'']" by (simp add: tg e)
  have st': "st = zeroStats\<lparr>TxN := 1\<rparr>" by (simp add: st s2 e exBolt_def zeroStats_def)
  have 1: "\<exists>t2 d2. Update exBolt exFail exTable0 () = Inr (Some (TxError ''boom''), t2, ()) \<and>
      db t2 = Some d2 \<and> txlog d2 = [RolledBack] \<and>
      statsd t2 =
        [Gauge ''bolt.pages.free'' 0 [''table:users''],
         Gauge ''bolt.pages.pending'' 0 [''table:users''],
         Gauge ''bolt.pages.free.alloc'' 0 [''table:users''],
         Gauge ''bolt.pages.freelist.inuse'' 0 [''table:users''],
         Count ''bolt.txn.total'' 1 [''table:users''],
         Gauge ''bolt.txn.open'' 0 [''table:users''],
         Count ''bolt.txn.page.count'' 0 [''table:users''],
         Count ''bolt.txn.page.alloc'' 0 [''table:users''],
         Count ''bolt.txn.cursor.count'' 0 [''table:users''],
         Count ''bolt.txn.node.count'' 0 [''table:users''],
         Count ''bolt.txn.node.deref'' 0 [''table:users''],
         Count ''bolt.txn.node.rebalance.count'' 0 [''table:users''],
         Count ''bolt.txn.node.rebalance.time'' 0 [''table:users''],
         Histogram ''bolt.txn.node.rebalance.period'' 0 0 [''table:users''],
         Count ''bolt.txn.node.split'' 0 [''table:users''],
         Count ''bolt.txn.node.spill.count'' 0 [''table:users''],
         Count ''bolt.txn.node.spill.time'' 0 [''table:users''],
         Histogram ''bolt.txn.node.spill.period'' 0 0 [''table:users''],
         Count ''bolt.txn.write.count'' 0 [''table:users''],
         Count ''bolt.txn.write.time'' 0 [''table:users''],
         Histogram ''bolt.txn.write.period'' 0 0 [''table:users'']] \<and>
      boltStats t2 = Some (stats d2)"
    apply (rule exI [of _ t2])
    apply (rule exI [of _ d2])
    apply (simp add: u d2 lg bs sk e tg' st' zeroStats_def)
    done
  have dc: "db exShut = Some (exDB0\<lparr>dbOpened := False\<rparr>)" by (simp add: exShut_def)
  have nc: "\<not> dbOpened (exDB0\<lparr>dbOpened := False\<rparr>)" by simp
  have e2: "statsd exShut = []" "boltStats exShut = Some zeroStats"
    "stats (exDB0\<lparr>dbOpened := False\<rparr>) = zeroStats" "ddTagsCache exShut = None" "name exShut = ''users''"
    by (simp_all add: exShut_def exDB0_def exTable0_def)
  from th [OF dc] nc
  obtain t3 st3 tags3 where
    u3: "Update exBolt exFail exShut () = Inr (Some ErrDatabaseNotOpen, t3, ())"
    and st3: "st3 = statsSub exBolt (stats (exDB0\<lparr>dbOpened := False\<rparr>)) (boltStats exShut)"
    and tg3: "tags3 = (case ddTagsCache exShut of Some c \<Rightarrow> c | None \<Rightarrow> [''table:'' @ name exShut])"
    and sk3: "statsd t3 = statsd exShut @
                 [Gauge ''bolt.pages.free'' (FreePageN st3) tags3,
                  Gauge ''bolt.pages.pending'' (PendingPageN st3) tags3,
                  Gauge ''bolt.pages.free.alloc'' (FreeAlloc st3) tags3,
                  Gauge ''bolt.pages.freelist.inuse'' (FreeAlloc st3) tags3,
                  Count ''bolt.txn.total'' (TxN st3) tags3,
                  Gauge ''bolt.txn.open'' (OpenTxN st3) tags3,
                  Count ''bolt.txn.page.count'' (PageCount (TxStats st3)) tags3,
                  Count ''bolt.txn.page.alloc'' (PageAlloc (TxStats st3)) tags3,
                  Count ''bolt.txn.cursor.count'' (CursorCount (TxStats st3)) tags3,
                  Count ''bolt.txn.node.count'' (NodeCount (TxStats st3)) tags3,
                  Count ''bolt.txn.node.deref'' (NodeDeref (TxStats st3)) tags3,
                  Count ''bolt.txn.node.rebalance.count'' (Rebalance (TxStats st3)) tags3,
                  Count ''bolt.txn.node.rebalance.time'' (RebalanceTime (TxStats st3)) tags3,
                  Histogram ''bolt.txn.node.rebalance.period''
                    (RebalanceTime (TxStats st3)) (Rebalance (TxStats st3)) tags3,
                  Count ''bolt.txn.node.split'' (Split (TxStats st3)) tags3,
                  Count ''bolt.txn.node.spill.count'' (Spill (TxStats st3)) tags3,
                  Count ''bolt.txn.node.spill.time'' (SpillTime (TxStats st3)) tags3,
                  Histogram ''bolt.txn.node.spill.period''
                    (SpillTime (TxStats st3)) (Spill (TxStats st3)) tags3,
                  Count ''bolt.txn.write.count'' (Write (TxStats st3)) tags3,
                  Count ''bolt.txn.write.time'' (WriteTime (TxStats st3)) tags3,
                  Histogram ''bolt.txn.write.period''
                    (WriteTime (TxStats st3)) (Write (TxStats st3)) tags3]"
    and bs3: "boltStats t3 = Some (stats (exDB0\<lparr>dbOpened := False\<rparr>))"
    by auto
  have tg3': "tags3 = [''table:users'']" by (simp add: tg3 e2)
  have st3': "st3 = zeroStats" by (simp add: st3 e2 exBolt_def zeroStats_def)
  have 2: "\<exists>t2. Update exBolt exFail exShut () = Inr (Some ErrDatabaseNotOpen, t2, ()) \<and>
      statsd t2 =
        [Gauge ''bolt.pages.free'' 0 [''table:users''],
         Gauge ''bolt.pages.pending'' 0 [''table:users''],
         Gauge ''bolt.pages.free.alloc'' 0 [''table:users''],
         Gauge ''bolt.pages.freelist.inuse'' 0 [''table:users''],
         Count ''bolt.txn.total'' 0 [''table:users''],
         Gauge ''bolt.txn.open'' 0 [''table:users''],
         Count ''bolt.txn.page.count'' 0 [''table:users''],
         Count ''bolt.txn.page.alloc'' 0 [''table:users''],
         Count ''bolt.txn.cursor.count'' 0 [''table:users''],
         Count ''bolt.txn.node.count'' 0 [''table:users''],
         Count ''bolt.txn.node.deref'' 0 [''table:users''],
         Count ''bolt.txn.node.rebalance.count'' 0 [''table:users''],
         Count ''bolt.txn.node.rebalance.time'' 0 [''table:users''],
         Histogram ''bolt.txn.node.rebalance.period'' 0 0 [''table:users''],
         Count ''bolt.txn.node.split'' 0 [''table:users''],
         Count ''bolt.txn.node.spill.count'' 0 [''table:users''],
         Count ''bolt.txn.node.spill.time'' 0 [''table:users''],
         Histogram ''bolt.txn.node.spill.period'' 0 0 [''table:users''],
         Count ''bolt.txn.write.count'' 0 [''table:users''],
         Count ''bolt.txn.write.time'' 0 [''table:users''],
         Histogram ''bolt.txn.write.period'' 0 0 [''table:users'']] \<and>
      boltStats t2 = Some zeroStats"
    apply (rule exI [of _ t3])
    apply (simp add: u3 bs3 sk3 e2 tg3' st3' zeroStats_def)
    done
  from ex0_db(1,2) f 1 dc nc 2 show ?thesis by blast
qed

subsection \<open>Proofs: The meta document\<close>

lemma fold_index_fields:
  "name (fold indexProperty ps t) = name t"
  "shardCount (fold indexProperty ps t) = shardCount t"
  "maxPermanentID (fold indexProperty ps t) = maxPermanentID t"
  "maxTransientID (fold indexProperty ps t) = maxTransientID t"
  "properties (fold indexProperty ps t) = fold (\<lambda>p m. m(pName p \<mapsto> p)) ps (properties t)"
  "propertiesByID (fold indexProperty ps t) = fold (\<lambda>p m. m(pID p \<mapsto> p)) ps (propertiesByID t)"
  by (induction ps arbitrary: t) (simp_all add: indexProperty_def)

lemma fold_upd_restrict:
  assumes "\<forall>p \<in> set ps. f (key p) = Some p"
  shows "fold (\<lambda>p m. m(key p \<mapsto> p)) ps m0 = m0 ++ (f |` (key ` set ps))"
  using assms
proof (induction ps arbitrary: m0)
  case Nil
  then show ?case by simp
next
  case (Cons p ps)
  from Cons.prems have fp: "f (key p) = Some p" and rest: "\<forall>p \<in> set ps. f (key p) = Some p"
    by simp_all
  note IH = Cons.IH [OF rest, of "m0(key p \<mapsto> p)"]
  have eq: "m0(key p \<mapsto> p) ++ (f |` (key ` set ps)) = m0 ++ (f |` (key ` set (p # ps)))"
  proof (rule ext)
    fix k
    show "(m0(key p \<mapsto> p) ++ (f |` (key ` set ps))) k = (m0 ++ (f |` (key ` set (p # ps)))) k"
      using fp by (cases "k = key p") (auto simp: map_add_def restrict_map_def split: option.splits)
  qed
  show ?case by (simp only: fold_simps o_apply IH eq)
qed

lemma set_map_filter_ran:
  assumes "set order = dom f"
  shows "set (List.map_filter f order) = ran f"
  using assms by (auto simp: List.map_filter_def ran_def dom_def) force+

lemma restrict_dom_self:
  assumes "dom f \<subseteq> A"
  shows "f |` A = f"
proof (rule ext)
  fix x
  show "(f |` A) x = f x"
  proof (cases "x \<in> A")
    case True
    then show ?thesis by simp
  next
    case False
    with assms have "x \<notin> dom f" by blast
    with False show ?thesis by (simp add: domIff)
  qed
qed

lemma exSchema_indexed: "schemaIndexed exSchema"
  by (auto simp: schemaIndexed_def exSchema_def exAction_def exPrice_def split: if_splits)

text \<open>
  C6. For a schema whose two indexes agree, and a JSON decoder that inverts the encoder on
  the document: \<^verbatim>\<open>unmarshal\<close> of what \<^verbatim>\<open>marshal\<close> produced, in
  whatever order the properties were met and into whatever table, restores the four scalars
  and both indexes.
\<close>

theorem meta_roundtrip:
  assumes "marshal enc order t = Inr data"
    and "\<forall>m. enc m = Inr data \<longrightarrow> dec data = Inr m"
    and "set order = dom (properties t)"
    and "schemaIndexed t"
  shows "\<exists>t'. unmarshal dec data t0 = Inr t' \<and>
           name t' = name t \<and> shardCount t' = shardCount t \<and>
           maxPermanentID t' = maxPermanentID t \<and> maxTransientID t' = maxTransientID t \<and>
           properties t' = properties t \<and> propertiesByID t' = propertiesByID t"
proof -
  let ?ps = "List.map_filter (properties t) order"
  let ?msg = "\<lparr>msgName = name t, msgShardCount = shardCount t,
               msgMaxPermanentID = maxPermanentID t, msgMaxTransientID = maxTransientID t,
               msgProperties = ?ps\<rparr>"
  from assms(1) have "enc ?msg = Inr data" by (simp add: marshal_def)
  with assms(2) have d: "dec data = Inr ?msg" by blast
  have ps: "set ?ps = ran (properties t)" by (rule set_map_filter_ran [OF assms(3)])
  have n1: "\<forall>p \<in> set ?ps. properties t (pName p) = Some p"
    using assms(4) by (auto simp: ps ran_def schemaIndexed_def)
  have n2: "\<forall>p \<in> set ?ps. propertiesByID t (pID p) = Some p"
    using assms(4) by (auto simp: ps ran_def schemaIndexed_def)
  have "dom (properties t) \<subseteq> pName ` ran (properties t)"
    using assms(4) by (force simp: ran_def schemaIndexed_def image_def)
  then have r1: "properties t |` (pName ` set ?ps) = properties t"
    by (simp add: ps restrict_dom_self)
  have "dom (propertiesByID t) \<subseteq> pID ` ran (properties t)"
  proof
    fix i assume "i \<in> dom (propertiesByID t)"
    then obtain p where p: "propertiesByID t i = Some p" by auto
    with assms(4) have "pID p = i" "properties t (pName p) = Some p"
      by (auto simp: schemaIndexed_def)
    then show "i \<in> pID ` ran (properties t)" by (auto simp: ran_def image_def)
  qed
  then have r2: "propertiesByID t |` (pID ` set ?ps) = propertiesByID t"
    by (simp add: ps restrict_dom_self)
  let ?t' = "fold indexProperty ?ps
                 (t0\<lparr>name := name t, maxPermanentID := maxPermanentID t,
                    maxTransientID := maxTransientID t, shardCount := shardCount t,
                    properties := Map.empty, propertiesByID := Map.empty\<rparr>)"
  have u: "unmarshal dec data t0 = Inr ?t'" by (simp add: unmarshal_def d)
  have p1: "properties ?t' = properties t"
    by (simp add: fold_index_fields fold_upd_restrict [where key = pName and f = "properties t", OF n1] r1)
  have p2: "propertiesByID ?t' = propertiesByID t"
    by (simp add: fold_index_fields fold_upd_restrict [where key = pID and f = "propertiesByID t", OF n2] r2)
  from u p1 p2 show ?thesis by (simp add: fold_index_fields)
qed

theorem meta_roundtrip_witness:
  "marshal Inr [''price'', ''action''] exSchema =
     (Inr \<lparr>msgName = ''users'', msgShardCount = 2, msgMaxPermanentID = 1, msgMaxTransientID = 1,
           msgProperties = [exPrice, exAction]\<rparr> :: error + tableRawMessage) \<and>
   set [''price'', ''action''] = dom (properties exSchema) \<and>
   schemaIndexed exSchema \<and>
   (\<exists>t'. unmarshal Inr \<lparr>msgName = ''users'', msgShardCount = 2, msgMaxPermanentID = 1,
                         msgMaxTransientID = 1, msgProperties = [exPrice, exAction]\<rparr> exTable1 =
            (Inr t' :: error + table) \<and>
      name t' = ''users'' \<and> shardCount t' = 2 \<and>
      properties t' = properties exSchema \<and> propertiesByID t' = propertiesByID exSchema)"
proof -
  let ?doc = "\<lparr>msgName = ''users'', msgShardCount = 2, msgMaxPermanentID = 1, msgMaxTransientID = 1,
           msgProperties = [exPrice, exAction]\<rparr>"
  have m: "marshal Inr [''price'', ''action''] exSchema = (Inr ?doc :: error + tableRawMessage)"
    by (simp add: marshal_def exSchema_def exTable0_def List.map_filter_def)
  have rt: "\<forall>m. (Inr m :: error + tableRawMessage) = Inr ?doc \<longrightarrow> (Inr ?doc :: error + tableRawMessage) = Inr m"
    by simp
  have o: "set [''price'', ''action''] = dom (properties exSchema)"
    by (auto simp: exSchema_def)
  from meta_roundtrip [where enc = Inr and dec = Inr, OF m rt o exSchema_indexed, of exTable1]
  have "\<exists>t'. unmarshal Inr ?doc exTable1 = (Inr t' :: error + table) \<and>
      name t' = name exSchema \<and> shardCount t' = shardCount exSchema \<and>
      properties t' = properties exSchema \<and> propertiesByID t' = propertiesByID exSchema"
    by blast
  moreover have "name exSchema = ''users''" "shardCount exSchema = 2"
    by (simp_all add: exSchema_def exTable0_def)
  ultimately show ?thesis using m o exSchema_indexed by simp
qed

subsection \<open>Proofs: Sharding\<close>

text \<open>
  C7, as amended. \<^verbatim>\<open>shardIndex\<close> gives the same outcome on two tables of
  equal \<open>shardCount\<close>. On a table with a positive \<open>shardCount\<close>, for an id whose
  hash is not negative as an \<^verbatim>\<open>int\<close>, the result is the hash modulo
  \<open>shardCount\<close>, a shard in \<open>[0, shardCount)\<close> (a negative hash would give a
  result that is not positive, since the remainder of Go keeps the sign of the dividend). On
  a table without shards
  (\<open>shardCount = 0\<close>, a table opened and never created) the call panics.
\<close>

theorem shard_index_stable:
  "(shardCount t = shardCount t' \<longrightarrow> shardIndex h t oid = shardIndex h t' oid) \<and>
   (0 < shardCount t \<and> 0 \<le> h oid \<longrightarrow>
      shardIndex h t oid = Inr (h oid mod shardCount t) \<and>
      0 \<le> h oid mod shardCount t \<and> h oid mod shardCount t < shardCount t) \<and>
   (0 < shardCount t \<and> h oid < 0 \<longrightarrow>
      shardIndex h t oid = Inr (- ((- h oid) mod shardCount t)) \<and>
      - ((- h oid) mod shardCount t) \<le> 0) \<and>
   (shardCount t = 0 \<longrightarrow> shardIndex h t oid = Inl DivideByZero)"
proof (intro conjI impI)
  assume "shardCount t = shardCount t'"
  then show "shardIndex h t oid = shardIndex h t' oid" by (simp add: shardIndex_def)
next
  assume a: "0 < shardCount t \<and> 0 \<le> h oid"
  then have r: "goRem (h oid) (shardCount t) = h oid mod shardCount t"
    using goRem_range [of "h oid" "shardCount t"] by simp
  with a show "shardIndex h t oid = Inr (h oid mod shardCount t)" by (simp add: shardIndex_def)
  from a show "0 \<le> h oid mod shardCount t" by simp
  from a show "h oid mod shardCount t < shardCount t" by simp
next
  assume a: "0 < shardCount t \<and> h oid < 0"
  then show "shardIndex h t oid = Inr (- ((- h oid) mod shardCount t))"
    by (simp add: shardIndex_def goRem_def)
  from a show "- ((- h oid) mod shardCount t) \<le> 0" by simp
next
  assume "shardCount t = 0"
  then show "shardIndex h t oid = Inl DivideByZero" by (simp add: shardIndex_def)
qed

theorem shard_index_stable_witness:
  "shardCount exTable0 = shardCount exSchema \<and>
   shardIndex exHash exTable0 ''abc'' = shardIndex exHash exSchema ''abc'' \<and>
   0 < shardCount exTable0 \<and> 0 \<le> exHash ''abc'' \<and>
   shardIndex exHash exTable0 ''abc'' = Inr 1 \<and>
   exNegHash ''abc'' < 0 \<and> shardIndex exNegHash exTable0 ''abc'' = Inr (- 1) \<and>
   shardCount (exTable0\<lparr>shardCount := 0\<rparr>) = 0 \<and>
   shardIndex exHash (exTable0\<lparr>shardCount := 0\<rparr>) ''abc'' = Inl DivideByZero"
proof -
  have e: "shardCount exTable0 = shardCount exSchema" by (simp add: exSchema_def)
  have p: "0 < shardCount exTable0" "0 \<le> exHash ''abc''" "exHash ''abc'' mod shardCount exTable0 = 1"
    by (simp_all add: exTable0_def exHash_def)
  have z: "shardCount (exTable0\<lparr>shardCount := 0\<rparr>) = 0" by simp
  note th = shard_index_stable [of exTable0 exSchema exHash "''abc''"]
  from th e have 1: "shardIndex exHash exTable0 ''abc'' = shardIndex exHash exSchema ''abc''"
    by blast
  from th p(1,2) have "shardIndex exHash exTable0 ''abc'' = Inr (exHash ''abc'' mod shardCount exTable0)"
    by blast
  then have 2: "shardIndex exHash exTable0 ''abc'' = Inr 1" by (simp only: p(3))
  from shard_index_stable [of "exTable0\<lparr>shardCount := 0\<rparr>" exSchema exHash "''abc''"] z
  have 3: "shardIndex exHash (exTable0\<lparr>shardCount := 0\<rparr>) ''abc'' = Inl DivideByZero" by blast
  have q: "exNegHash ''abc'' < 0" "- ((- exNegHash ''abc'') mod shardCount exTable0) = - 1"
    by (simp_all add: exTable0_def exNegHash_def)
  from shard_index_stable [of exTable0 exSchema exNegHash "''abc''"] p(1) q(1)
  have "shardIndex exNegHash exTable0 ''abc'' = Inr (- ((- exNegHash ''abc'') mod shardCount exTable0))"
    by blast
  then have 4: "shardIndex exNegHash exTable0 ''abc'' = Inr (- 1)" by (simp only: q(2))
  from e p(1,2) z 1 2 3 4 q(1) show ?thesis by blast
qed

text \<open>
  C7 as stated fails: on the table with \<open>shardCount = 0\<close> the call does not return a
  shard, it panics with a division by zero.
\<close>

theorem shard_index_panics_without_shards:
  "shardIndex exHash (exTable0\<lparr>shardCount := 0\<rparr>) ''abc'' = Inl DivideByZero"
  by (simp add: shardIndex_def)

subsection \<open>Proofs: The event codec\<close>

lemma getInt64_putInt64: "getInt64 (putInt64 w) = w"
proof (rule bit_word_eqI)
  fix n
  assume "n < LENGTH(64)"
  then have "n < 64" by simp
  then consider "n < 8" | "8 \<le> n" "n < 16" | "16 \<le> n" "n < 24" | "24 \<le> n" "n < 32"
    | "32 \<le> n" "n < 40" | "40 \<le> n" "n < 48" | "48 \<le> n" "n < 56" | "56 \<le> n" "n < 64"
    by linarith
  then show "bit (getInt64 (putInt64 w)) n = bit w n"
    by cases (auto simp add: getInt64_def putInt64_def bit_simps)
qed

lemma length_putInt64: "length (putInt64 w) = 8"
  by (simp add: putInt64_def)

lemma normalize_same:
  assumes "sameUpToWidth (dataMap e) m"
  shows "normalize (e0\<lparr>timestamp := timestamp e, dataMap := m\<rparr>) = normalize e"
proof -
  from assms have "map_option promote \<circ> m = map_option promote \<circ> dataMap e"
    by (auto simp: sameUpToWidth_def fun_eq_iff)
  then show ?thesis by (simp add: normalize_def)
qed

lemma ex_same: "sameUpToWidth (dataMap exEvent) [1 \<mapsto> VInt 8 7, 2 \<mapsto> VString ''click'', 3 \<mapsto> VFloat 32 2]"
  by (simp add: sameUpToWidth_def exEvent_def)

text \<open>
  C5. For an event whose data map the codec encodes, and a decoder that reads those bytes
  back as the same map up to the width of the numbers: \<^verbatim>\<open>unmarshal\<close> of what
  \<^verbatim>\<open>marshal\<close> produced, into whatever event, is the normalized event, with
  the same timestamp and every value promoted.
\<close>

theorem event_roundtrip:
  assumes "encode (dataMap e) = Inr bs"
    and "decode bs = Inr m"
    and "sameUpToWidth (dataMap e) m"
  shows "\<exists>b. rawEvent_marshal encode e = Inr b \<and>
           rawEvent_unmarshal decode b e0 = Inr (Inr (normalize e)) \<and>
           timestamp (normalize e) = timestamp e \<and>
           dataMap (normalize e) = map_option promote \<circ> dataMap e"
proof -
  let ?b = "putInt64 (timestamp e) @ bs"
  have m: "rawEvent_marshal encode e = Inr ?b"
    by (simp add: rawEvent_marshal_def assms(1))
  have "rawEvent_unmarshal decode ?b e0 =
          Inr (Inr (normalize (e0\<lparr>timestamp := getInt64 (putInt64 (timestamp e)), dataMap := m\<rparr>)))"
    by (simp add: rawEvent_unmarshal_def length_putInt64 assms(2))
  then have u: "rawEvent_unmarshal decode ?b e0 = Inr (Inr (normalize e))"
    by (simp only: getInt64_putInt64 normalize_same [OF assms(3)])
  have "timestamp (normalize e) = timestamp e" "dataMap (normalize e) = map_option promote \<circ> dataMap e"
    by (simp_all add: normalize_def)
  with m u show ?thesis by blast
qed

theorem event_roundtrip_witness:
  "exEncode (dataMap exEvent) = Inr exWire \<and>
   exDecode exWire = Inr [1 \<mapsto> VInt 8 7, 2 \<mapsto> VString ''click'', 3 \<mapsto> VFloat 32 2] \<and>
   sameUpToWidth (dataMap exEvent) [1 \<mapsto> VInt 8 7, 2 \<mapsto> VString ''click'', 3 \<mapsto> VFloat 32 2] \<and>
   rawEvent_marshal exEncode exEvent = Inr ([0x40, 0, 0, 0, 0, 0, 0, 1] @ exWire) \<and>
   rawEvent_unmarshal exDecode ([0x40, 0, 0, 0, 0, 0, 0, 1] @ exWire)
       \<lparr>timestamp = 0, dataMap = Map.empty\<rparr> =
     Inr (Inr \<lparr>timestamp = 0x4000000000000001,
               dataMap = [1 \<mapsto> VInt 64 7, 2 \<mapsto> VString ''click'', 3 \<mapsto> VFloat 64 2]\<rparr>)"
proof -
  have e: "exEncode (dataMap exEvent) = Inr exWire" by (simp add: exEncode_def)
  have d: "exDecode exWire = Inr [1 \<mapsto> VInt 8 7, 2 \<mapsto> VString ''click'', 3 \<mapsto> VFloat 32 2]"
    by (simp add: exDecode_def)
  have mb: "rawEvent_marshal exEncode exEvent = Inr ([0x40, 0, 0, 0, 0, 0, 0, 1] @ exWire)"
    by (simp add: rawEvent_marshal_def e) (simp add: putInt64_def exEvent_def)
  have n: "normalize exEvent =
      \<lparr>timestamp = 0x4000000000000001,
       dataMap = [1 \<mapsto> VInt 64 7, 2 \<mapsto> VString ''click'', 3 \<mapsto> VFloat 64 2]\<rparr>"
    by (simp add: normalize_def exEvent_def fun_eq_iff)
  from event_roundtrip [where encode = exEncode and decode = exDecode and e = exEvent
      and ?e0.0 = "\<lparr>timestamp = 0, dataMap = Map.empty\<rparr>", OF e d ex_same] mb
  have "rawEvent_unmarshal exDecode ([0x40, 0, 0, 0, 0, 0, 0, 1] @ exWire)
       \<lparr>timestamp = 0, dataMap = Map.empty\<rparr> = Inr (Inr (normalize exEvent))"
    by auto
  with e d ex_same mb n show ?thesis by simp
qed

subsection \<open>Proofs: Opening the table\<close>

text \<open>
  C9, as amended. \<^verbatim>\<open>open\<close> on a table that has a handle returns at once.
  On a table without one it calls the store's open with the table's path, the mode
  \<^verbatim>\<open>0600\<close> and the fixed timeout of one second (1000000000 ns), and nothing of
  the store's open but its answer to that call matters; when the answer is an error, by
  timeout or otherwise, \<^verbatim>\<open>open\<close> returns the error
  \<open>table open: \<close> followed by the store's message, and the table stays as it was,
  without a handle.
\<close>

theorem open_acquires:
  "(db t \<noteq> None \<longrightarrow> openTable B boltOpen initSchema t = Inr (None, t)) \<and>
   (db t = None \<and> boltOpen (path t) 384 \<lparr>Timeout = 1000000000\<rparr> = Inl msg \<longrightarrow>
      openTable B boltOpen initSchema t = Inr (Some (Errorf (''table open: '' @ msg)), t)) \<and>
   (boltOpen (path t) 384 \<lparr>Timeout = 1000000000\<rparr> = boltOpen' (path t) 384 \<lparr>Timeout = 1000000000\<rparr> \<longrightarrow>
      openTable B boltOpen initSchema t = openTable B boltOpen' initSchema t)"
  by (simp add: openTable_def Second_def)

theorem open_acquires_witness:
  "db exTable0 \<noteq> None \<and> openTable exBolt exBoltOpen exInit exTable0 = Inr (None, exTable0) \<and>
   db exBusy = None \<and> exBoltOpen (path exBusy) 384 \<lparr>Timeout = 1000000000\<rparr> = Inl ''timeout'' \<and>
   openTable exBolt exBoltOpen exInit exBusy = Inr (Some (Errorf ''table open: timeout''), exBusy) \<and>
   db exBusy = None \<and>
   exBoltOpen (path exBusy) 384 \<lparr>Timeout = 1000000000\<rparr> =
     (\<lambda>p mode opts. Inl ''timeout'') (path exBusy) 384 \<lparr>Timeout = 1000000000\<rparr> \<and>
   openTable exBolt exBoltOpen exInit exBusy =
     openTable exBolt (\<lambda>p mode opts. Inl ''timeout'') exInit exBusy"
proof -
  have a: "db exTable0 \<noteq> None" by (simp add: exTable0_def)
  have b: "db exBusy = None" by (simp add: exBusy_def)
  have c: "exBoltOpen (path exBusy) 384 \<lparr>Timeout = 1000000000\<rparr> = Inl ''timeout''"
    by (simp add: exBoltOpen_def exBusy_def)
  from open_acquires [of exTable0 exBolt exBoltOpen exInit] a
  have 1: "openTable exBolt exBoltOpen exInit exTable0 = Inr (None, exTable0)" by blast
  note th = open_acquires [of exBusy exBolt exBoltOpen exInit "''timeout''" "\<lambda>p mode opts. Inl ''timeout''"]
  from th b c
  have "openTable exBolt exBoltOpen exInit exBusy =
      Inr (Some (Errorf (''table open: '' @ ''timeout'')), exBusy)"
    by blast
  then have 2: "openTable exBolt exBoltOpen exInit exBusy =
      Inr (Some (Errorf ''table open: timeout''), exBusy)"
    by simp
  from th c have 3: "openTable exBolt exBoltOpen exInit exBusy =
     openTable exBolt (\<lambda>p mode opts. Inl ''timeout'') exInit exBusy"
    by blast
  from a b c 1 2 3 show ?thesis by blast
qed

text \<open>
  C9 as stated fails: when the store's open times out, the error returned is the formatted
  \<open>table open: timeout\<close>, not \<open>TableBusy\<close>.
\<close>

theorem open_timeout_not_table_busy:
  "openTable exBolt exBoltOpen exInit exBusy = Inr (Some (Errorf ''table open: timeout''), exBusy) \<and>
   Errorf ''table open: timeout'' \<noteq> TableBusy"
  by (simp add: openTable_def exBoltOpen_def exBusy_def Second_def)

end
